theory Spec2Isabelle
  imports Complex_Main
begin

section \<open>Python values and errors\<close>

text \<open>
  The program is \<^verbatim>\<open>src/raysight.py\<close>. Python numbers (ints and floats) are modelled as
  exact reals; every exception the modelled code can raise is a value of \<open>error\<close>, and a
  function that can raise returns \<open>error + 'a\<close> with \<open>Inl\<close> for the exception.
\<close>

datatype error = ZeroDivisionError | ValueError | IndexError | NameError | TypeError

definition ebind :: "error + 'a \<Rightarrow> ('a \<Rightarrow> error + 'b) \<Rightarrow> error + 'b" where
  "ebind m f = (case m of Inl e \<Rightarrow> Inl e | Inr x \<Rightarrow> f x)"

text \<open>\<^verbatim>\<open>a / b\<close> on numbers.\<close>

definition py_div :: "real \<Rightarrow> real \<Rightarrow> error + real" where
  "py_div a b = (if b = 0 then Inl ZeroDivisionError else Inr (a / b))"

text \<open>\<^verbatim>\<open>a % b\<close> on numbers: the result has the sign of the divisor.\<close>

definition py_mod :: "real \<Rightarrow> real \<Rightarrow> error + real" where
  "py_mod a b = (if b = 0 then Inl ZeroDivisionError else Inr (a - b * of_int \<lfloor>a / b\<rfloor>))"

text \<open>\<^verbatim>\<open>math.acos\<close>: a domain error outside \<open>[-1, 1]\<close>.\<close>

definition acos :: "real \<Rightarrow> error + real" where
  "acos x = (if - 1 \<le> x \<and> x \<le> 1 then Inr (arccos x) else Inl ValueError)"

text \<open>\<^verbatim>\<open>round(a)\<close> with one argument: to the nearest integer, a tie to the even one.\<close>

definition py_round :: "real \<Rightarrow> int" where
  "py_round a =
     (let f = \<lfloor>a\<rfloor>; d = a - of_int f
      in if d < 1 / 2 then f else if 1 / 2 < d then f + 1 else if even f then f else f + 1)"

section \<open>class Vector\<close>

text \<open>A \<^verbatim>\<open>Vector\<close> object is its \<^verbatim>\<open>values\<close> list.\<close>

type_synonym vector = "real list"

text \<open>\<^verbatim>\<open>Vector.__init__(*args)\<close>: no argument gives \<^verbatim>\<open>[0, 0]\<close>.\<close>

definition Vector :: "real list \<Rightarrow> vector" where
  "Vector args = (if length args = 0 then [0, 0] else args)"

text \<open>\<^verbatim>\<open>Vector.norm\<close>.\<close>

definition norm_v :: "vector \<Rightarrow> real" where
  "norm_v self = sqrt (sum_list (map (\<lambda>c. c ^ 2) self))"

text \<open>\<^verbatim>\<open>Vector.dot\<close>: \<^verbatim>\<open>zip\<close> stops at the shorter operand.\<close>

definition dot :: "vector \<Rightarrow> vector \<Rightarrow> real" where
  "dot self other = sum_list (map (\<lambda>(a, b). a * b) (zip self other))"

text \<open>\<^verbatim>\<open>self.values[key]\<close> for a key that is 0 or positive.\<close>

definition getitem :: "vector \<Rightarrow> nat \<Rightarrow> error + real" where
  "getitem self key = (if key < length self then Inr (self ! key) else Inl IndexError)"

text \<open>\<^verbatim>\<open>self.values[key] = x\<close> for a key that is 0 or positive.\<close>

definition setitem :: "vector \<Rightarrow> nat \<Rightarrow> real \<Rightarrow> error + vector" where
  "setitem self key x = (if key < length self then Inr (self[key := x]) else Inl IndexError)"

text \<open>\<^verbatim>\<open>Vector.argument\<close>.\<close>

definition argument :: "vector \<Rightarrow> error + real" where
  "argument self =
     ebind (py_div (dot (Vector [1, 0]) self) (norm_v self)) (\<lambda>q.
     ebind (acos q) (\<lambda>arg_in_rad.
     ebind (getitem self 1) (\<lambda>y.
       if y < 0 then Inr (2 * pi - arg_in_rad) else Inr arg_in_rad)))"

text \<open>\<^verbatim>\<open>Vector.angle_to\<close>.\<close>

definition angle_to :: "vector \<Rightarrow> vector \<Rightarrow> error + real" where
  "angle_to self other =
     ebind (argument self) (\<lambda>a.
     ebind (argument other) (\<lambda>b. py_mod (a - b) (2 * pi)))"

text \<open>The list comprehension \<^verbatim>\<open>list(c / d for c in self)\<close>.\<close>

fun div_all :: "real list \<Rightarrow> real \<Rightarrow> error + real list" where
  "div_all [] d = Inr []"
| "div_all (c # rest) d =
     ebind (py_div c d) (\<lambda>q. ebind (div_all rest d) (\<lambda>qs. Inr (q # qs)))"

text \<open>\<^verbatim>\<open>Vector.normalize\<close>.\<close>

definition normalize :: "vector \<Rightarrow> error + vector" where
  "normalize self = ebind (div_all self (norm_v self)) (\<lambda>normed. Inr (Vector normed))"

text \<open>\<^verbatim>\<open>Vector._rotate2D\<close>: \<^verbatim>\<open>x, y = self.values\<close> needs exactly two values.\<close>

definition rotate2D :: "vector \<Rightarrow> real \<Rightarrow> error + vector" where
  "rotate2D self theta =
     (let dc = cos theta; ds = sin theta
      in case self of
           [x, y] \<Rightarrow> Inr (Vector [dc * x - ds * y, ds * x + dc * y])
         | _ \<Rightarrow> Inl ValueError)"

text \<open>\<^verbatim>\<open>Vector.rotate\<close> called with one number.\<close>

definition rotate :: "vector \<Rightarrow> real \<Rightarrow> error + vector" where
  "rotate self theta = (if length self \<noteq> 2 then Inl ValueError else rotate2D self theta)"

text \<open>
  \<^verbatim>\<open>Vector.__mul__\<close> (and \<^verbatim>\<open>__rmul__\<close>) with a number, and with another Vector, where the
  product is taken component by component.
\<close>

definition smul :: "vector \<Rightarrow> real \<Rightarrow> vector" where
  "smul self other = Vector (map (\<lambda>a. a * other) self)"

definition vmul :: "vector \<Rightarrow> vector \<Rightarrow> vector" where
  "vmul self other = Vector (map (\<lambda>(a, b). a * b) (zip self other))"

text \<open>\<^verbatim>\<open>Vector.__truediv__\<close> with a number.\<close>

definition sdiv :: "vector \<Rightarrow> real \<Rightarrow> error + vector" where
  "sdiv self other = ebind (div_all self other) (\<lambda>divided. Inr (Vector divided))"

text \<open>\<^verbatim>\<open>Vector.__add__\<close> and \<^verbatim>\<open>Vector.__sub__\<close> with another Vector.\<close>

definition vadd :: "vector \<Rightarrow> vector \<Rightarrow> vector" where
  "vadd self other = Vector (map (\<lambda>(a, b). a + b) (zip self other))"

definition vsub :: "vector \<Rightarrow> vector \<Rightarrow> vector" where
  "vsub self other = Vector (map (\<lambda>(a, b). a - b) (zip self other))"

text \<open>\<^verbatim>\<open>Vector.__sub__\<close> with a number.\<close>

definition ssub :: "vector \<Rightarrow> real \<Rightarrow> vector" where
  "ssub self other = Vector (map (\<lambda>a. a - other) self)"

text \<open>\<^verbatim>\<open>Vector.__round__\<close>: a Vector of Python ints.\<close>

definition vround :: "vector \<Rightarrow> int list" where
  "vround self = (let rounded = map py_round self in if length rounded = 0 then [0, 0] else rounded)"

text \<open>
  The truth value of \<^verbatim>\<open>d[0] or d[1]\<close>: the second component is read only when the first
  is zero.
\<close>

definition nonzero2 :: "vector \<Rightarrow> error + bool" where
  "nonzero2 d =
     ebind (getitem d 0) (\<lambda>a. if a \<noteq> 0 then Inr True else ebind (getitem d 1) (\<lambda>b. Inr (b \<noteq> 0)))"

subsection \<open>Rotation by a matrix\<close>

text \<open>
  The name \<^verbatim>\<open>v\<close> read in \<^verbatim>\<open>Vector.rotate\<close>. It is no parameter and no local variable of
  \<^verbatim>\<open>rotate\<close>, and the module binds no global of that name (its globals are the imported
  modules, the five classes, \<^verbatim>\<open>main\<close> and the names \<^verbatim>\<open>main\<close> declares global), so reading
  it raises NameError.
\<close>

definition global_v :: "error + vector" where
  "global_v = Inl NameError"

text \<open>
  \<^verbatim>\<open>all(len(row) == len(v) for row in matrix)\<close>: the generator reads \<^verbatim>\<open>v\<close> once for every
  row it reaches, and \<^verbatim>\<open>all\<close> stops at the first row that fails.
\<close>

fun all_rows_v :: "real list list \<Rightarrow> error + bool" where
  "all_rows_v [] = Inr True"
| "all_rows_v (row # rest) =
     ebind global_v (\<lambda>v. if length row = length v then all_rows_v rest else Inr False)"

text \<open>
  What \<^verbatim>\<open>Vector(*product)\<close> holds in \<^verbatim>\<open>matrix_mult\<close>: the products, each a Vector, or the
  two zeros of the constructor when there is no row.
\<close>

datatype product_vector = Numbers vector | Vectors "vector list"

text \<open>\<^verbatim>\<open>Vector.matrix_mult\<close>: \<^verbatim>\<open>Vector(*row) * self\<close> is \<^verbatim>\<open>__mul__\<close> with a Vector.\<close>

definition matrix_mult :: "vector \<Rightarrow> real list list \<Rightarrow> error + product_vector" where
  "matrix_mult self matrix =
     (if \<not> list_all (\<lambda>row. length row = length self) matrix then Inl ValueError
      else let product = map (\<lambda>row. vmul (Vector row) self) matrix
           in Inr (if length product = 0 then Numbers [0, 0] else Vectors product))"

text \<open>\<^verbatim>\<open>Vector.rotate\<close> called with one argument that is not a number.\<close>

definition rotate_matrix :: "vector \<Rightarrow> real list list \<Rightarrow> error + product_vector" where
  "rotate_matrix self matrix =
     ebind (all_rows_v matrix) (\<lambda>rows_ok.
       if \<not> rows_ok \<or> \<not> length matrix = length self then Inl ValueError
       else matrix_mult self matrix)"

section \<open>Configuration\<close>

text \<open>The globals that \<^verbatim>\<open>main\<close> sets before the loop starts.\<close>

definition RAY_STRENGTH :: real where "RAY_STRENGTH = 200"
definition RAY_DECAY :: real where "RAY_DECAY = 1"
definition WALL_DECAY :: real where "WALL_DECAY = 10"
definition BEAM_DECAY :: real where "BEAM_DECAY = 2"
definition RAY_SPEED :: real where "RAY_SPEED = 8"
definition RAYS_PER_EMIT :: nat where "RAYS_PER_EMIT = 32"
definition EMISSION_ANGLE :: real where "EMISSION_ANGLE = 5 * pi / 4"
definition BAT_RADIUS :: int where "BAT_RADIUS = 10"
definition RAY_RADIUS :: int where "RAY_RADIUS = 4"
definition BEAM_WIDTH :: int where "BEAM_WIDTH = 2"
definition AUTO_CONTROLLED :: bool where "AUTO_CONTROLLED = True"
definition DEFAULT_SPEED :: real where "DEFAULT_SPEED = 5"

section \<open>Rectangles and walls\<close>

text \<open>
  \<^verbatim>\<open>pygame.Rect\<close> belongs to the pygame library, not to the program. A Rect holds four
  ints; \<^verbatim>\<open>right\<close> is \<^verbatim>\<open>left + w\<close> and \<^verbatim>\<open>bottom\<close> is \<^verbatim>\<open>top + h\<close>.
\<close>

record rect =
  rect_left :: int
  rect_top :: int
  rect_w :: int
  rect_h :: int

definition rect_right :: "rect \<Rightarrow> int" where
  "rect_right r = rect_left r + rect_w r"

definition rect_bottom :: "rect \<Rightarrow> int" where
  "rect_bottom r = rect_top r + rect_h r"

text \<open>
  \<^verbatim>\<open>Rect.colliderect\<close> as pygame 2 computes it: two rectangles collide when their interiors
  overlap (touching edges do not count), and a rectangle of width or height 0 collides
  with nothing.
\<close>

definition colliderect :: "rect \<Rightarrow> rect \<Rightarrow> bool" where
  "colliderect A B =
     (if rect_w A = 0 \<or> rect_h A = 0 \<or> rect_w B = 0 \<or> rect_h B = 0 then False
      else min (rect_left A) (rect_left A + rect_w A) < max (rect_left B) (rect_left B + rect_w B) \<and>
           min (rect_top A) (rect_top A + rect_h A) < max (rect_top B) (rect_top B + rect_h B) \<and>
           min (rect_left B) (rect_left B + rect_w B) < max (rect_left A) (rect_left A + rect_w A) \<and>
           min (rect_top B) (rect_top B + rect_h B) < max (rect_top A) (rect_top A + rect_h A))"

text \<open>\<^verbatim>\<open>class Wall\<close>.\<close>

record wall =
  wall_rect :: rect
  wall_interest :: real
  collides_bat :: bool

text \<open>
  \<^verbatim>\<open>Rect.collidelist(walls)\<close>: the index of the first wall whose \<^verbatim>\<open>rect\<close> collides, and
  \<open>None\<close> where pygame returns \<^verbatim>\<open>-1\<close>.
\<close>

fun collidelist :: "rect \<Rightarrow> wall list \<Rightarrow> nat option" where
  "collidelist r [] = None"
| "collidelist r (wl # rest) =
     (if colliderect r (wall_rect wl) then Some 0 else map_option Suc (collidelist r rest))"

text \<open>
  \<^verbatim>\<open>pygame.Rect(*round(pos - radius), 2 * radius, 2 * radius)\<close>, the body of both
  \<^verbatim>\<open>get_rect\<close> methods: the constructor needs exactly two rounded coordinates.
\<close>

definition get_rect :: "vector \<Rightarrow> int \<Rightarrow> error + rect" where
  "get_rect pos radius =
     (case vround (ssub pos (of_int radius)) of
        [x, y] \<Rightarrow> Inr \<lparr>rect_left = x, rect_top = y, rect_w = 2 * radius, rect_h = 2 * radius\<rparr>
      | _ \<Rightarrow> Inl TypeError)"

subsection \<open>The closest edge\<close>

text \<open>
  Both \<^verbatim>\<open>test_collision\<close> methods end with the same lines, on the position and on the
  vector they reflect (the velocity of a Bat, the facing of a Ray).
\<close>

definition edge_lengths :: "vector \<Rightarrow> rect \<Rightarrow> error + real list" where
  "edge_lengths pos r =
     ebind (getitem pos 0) (\<lambda>x.
     ebind (getitem pos 1) (\<lambda>y.
       Inr [\<bar>x - of_int (rect_left r)\<bar>, \<bar>x - of_int (rect_right r)\<bar>,
            \<bar>y - of_int (rect_top r)\<bar>, \<bar>y - of_int (rect_bottom r)\<bar>]))"

text \<open>\<^verbatim>\<open>min(lengths)\<close> and \<^verbatim>\<open>lengths.index(m)\<close>.\<close>

fun py_min :: "real list \<Rightarrow> error + real" where
  "py_min [] = Inl ValueError"
| "py_min (a # rest) = Inr (fold min rest a)"

fun list_index :: "real list \<Rightarrow> real \<Rightarrow> error + nat" where
  "list_index [] m = Inl ValueError"
| "list_index (a # rest) m =
     (if a = m then Inr 0 else ebind (list_index rest m) (\<lambda>i. Inr (Suc i)))"

definition close_edge :: "vector \<Rightarrow> rect \<Rightarrow> error + nat" where
  "close_edge pos r =
     ebind (edge_lengths pos r) (\<lambda>lengths.
     ebind (py_min lengths) (\<lambda>m. list_index lengths m))"

text \<open>\<^verbatim>\<open>close_edge not in (0, 1)\<close>, a bool used as an index.\<close>

definition vel_index :: "nat \<Rightarrow> nat" where
  "vel_index edge = (if edge \<noteq> 0 \<and> edge \<noteq> 1 then 1 else 0)"

text \<open>\<^verbatim>\<open>(-1, 1)[close_edge % 2]\<close>.\<close>

definition positivity :: "nat \<Rightarrow> real" where
  "positivity edge = [- 1, 1] ! (edge mod 2)"

text \<open>\<^verbatim>\<open>v.values[vel_index] = positivity * abs(v[vel_index])\<close> for the closest edge of \<open>r\<close>.\<close>

definition reflect :: "vector \<Rightarrow> vector \<Rightarrow> rect \<Rightarrow> error + vector" where
  "reflect v pos r =
     ebind (close_edge pos r) (\<lambda>edge.
     ebind (getitem v (vel_index edge)) (\<lambda>c.
       setitem v (vel_index edge) (positivity edge * \<bar>c\<bar>)))"

section \<open>Rays, beams and bats\<close>

text \<open>
  Objects are records. A Ray carries its identity in \<open>ident\<close>: the class defines no
  \<^verbatim>\<open>__eq__\<close>, so \<^verbatim>\<open>list.remove\<close> finds a Ray by identity, and an assignment to an attribute
  of a Ray is seen through every list that holds it. The back-reference \<^verbatim>\<open>parent\<close> is not
  a field: a function that follows it takes the parent's list as an argument.
\<close>

record ray =
  ident :: nat
  ray_pos :: vector
  ray_facing :: vector
  collided :: bool
  exited_bat :: bool
  ray_strength :: real
  ray_interest :: real
  ray_radius :: int

record beam =
  beam_start :: vector
  beam_rel :: vector
  beam_strength :: real
  beam_interest :: real
  beam_width :: int

record bat =
  bat_pos :: vector
  bat_vel :: vector
  bat_facing :: vector
  ang_vel :: real
  friction :: real
  rays :: "ray list"
  beams :: "beam list"
  bat_radius :: int

text \<open>\<^verbatim>\<open>Bat.__init__\<close>.\<close>

definition Bat :: "vector \<Rightarrow> real \<Rightarrow> error + bat" where
  "Bat pos angle =
     ebind (rotate (Vector [1, 0]) angle) (\<lambda>f.
       Inr \<lparr>bat_pos = pos, bat_vel = Vector [], bat_facing = f, ang_vel = 0, friction = 1.1,
            rays = [], beams = [], bat_radius = BAT_RADIUS\<rparr>)"

text \<open>\<^verbatim>\<open>Ray.__init__\<close>; \<open>fresh\<close> is the identity of the new object.\<close>

definition Ray :: "nat \<Rightarrow> vector \<Rightarrow> real \<Rightarrow> error + ray" where
  "Ray fresh pos angle =
     ebind (rotate (Vector [1, 0]) angle) (\<lambda>f.
       Inr \<lparr>ident = fresh, ray_pos = pos, ray_facing = f, collided = False, exited_bat = False,
            ray_strength = RAY_STRENGTH, ray_interest = 0, ray_radius = RAY_RADIUS\<rparr>)"

text \<open>\<^verbatim>\<open>Beam.__init__\<close>.\<close>

definition Beam :: "vector \<Rightarrow> vector \<Rightarrow> real \<Rightarrow> real \<Rightarrow> beam" where
  "Beam start rel strength interest =
     \<lparr>beam_start = start, beam_rel = rel, beam_strength = strength, beam_interest = interest,
      beam_width = BEAM_WIDTH\<rparr>"

text \<open>
  \<^verbatim>\<open>xs.remove(x)\<close> on a list of Rays deletes the first element that is the object \<open>x\<close>
  and raises ValueError when there is none. \<open>list_store\<close> writes the new state of a
  mutated object back to the list that holds it.
\<close>

fun list_remove :: "ray \<Rightarrow> ray list \<Rightarrow> error + ray list" where
  "list_remove x [] = Inl ValueError"
| "list_remove x (r # rest) =
     (if ident r = ident x then Inr rest
      else ebind (list_remove x rest) (\<lambda>rest'. Inr (r # rest')))"

definition list_store :: "ray \<Rightarrow> ray list \<Rightarrow> ray list" where
  "list_store x xs = map (\<lambda>r. if ident r = ident x then x else r) xs"

subsection \<open>class Bat\<close>

text \<open>\<^verbatim>\<open>Bat.get_rect\<close>.\<close>

definition Bat_get_rect :: "bat \<Rightarrow> error + rect" where
  "Bat_get_rect self = get_rect (bat_pos self) (bat_radius self)"

text \<open>\<^verbatim>\<open>Bat.test_collision\<close>; \<open>walls\<close> is the global list of walls.\<close>

definition Bat_test_collision :: "wall list \<Rightarrow> bat \<Rightarrow> error + bat" where
  "Bat_test_collision walls self =
     ebind (Bat_get_rect self) (\<lambda>own.
       case collidelist own walls of
         None \<Rightarrow> Inr self
       | Some collide_index \<Rightarrow>
           if collides_bat (walls ! collide_index) then
             ebind (sdiv (bat_vel self) 60) (\<lambda>step.
               let pos = vsub (bat_pos self) step
               in ebind (reflect (bat_vel self) pos (wall_rect (walls ! collide_index))) (\<lambda>vel.
                    Inr (self\<lparr>bat_pos := pos, bat_vel := vel\<rparr>)))
           else Inr self)"

text \<open>\<^verbatim>\<open>Bat.update\<close>.\<close>

definition Bat_update :: "wall list \<Rightarrow> bat \<Rightarrow> error + bat" where
  "Bat_update walls self =
     ebind (sdiv (bat_vel self) 60) (\<lambda>step.
     ebind (Bat_test_collision walls (self\<lparr>bat_pos := vadd (bat_pos self) step\<rparr>)) (\<lambda>s1.
     ebind (py_div (ang_vel s1) 60) (\<lambda>turn.
     ebind (rotate (bat_facing s1) turn) (\<lambda>f.
     ebind (sdiv (bat_vel s1) (friction s1)) (\<lambda>vel.
     ebind (py_div (ang_vel s1) (friction s1)) (\<lambda>av.
       Inr (s1\<lparr>bat_facing := f, bat_vel := vel, ang_vel := av\<rparr>)))))))"

text \<open>
  \<^verbatim>\<open>Bat.emit\<close>: the loop over \<^verbatim>\<open>range(RAYS_PER_EMIT)\<close>. \<open>emit_angle\<close> is the local
  \<^verbatim>\<open>angle\<close> of iteration \<open>i\<close>; \<open>fresh\<close> is the identity of the next new Ray.
\<close>

definition emit_angle :: "bat \<Rightarrow> nat \<Rightarrow> error + real" where
  "emit_angle self i =
     ebind (argument (bat_facing self)) (\<lambda>a.
       Inr (a - EMISSION_ANGLE / 2 + EMISSION_ANGLE / of_nat RAYS_PER_EMIT * of_nat i))"

fun emit_loop :: "nat list \<Rightarrow> nat \<Rightarrow> bat \<Rightarrow> error + bat" where
  "emit_loop [] fresh self = Inr self"
| "emit_loop (i # rest) fresh self =
     ebind (emit_angle self i) (\<lambda>angle.
     ebind (Ray fresh (bat_pos self) angle) (\<lambda>r.
       emit_loop rest (Suc fresh) (self\<lparr>rays := rays self @ [r]\<rparr>)))"

definition emit :: "nat \<Rightarrow> bat \<Rightarrow> error + bat" where
  "emit fresh self = emit_loop [0 ..< RAYS_PER_EMIT] fresh self"

text \<open>
  \<^verbatim>\<open>Bat.test_rays\<close>. \<open>test_ray\<close> is the body of the first loop for one Ray: it returns the
  Bat (with its beams), the Ray (with its flag) and \<^verbatim>\<open>removed_rays\<close>.
\<close>

definition test_ray :: "bat \<Rightarrow> ray \<Rightarrow> ray list \<Rightarrow> error + (bat \<times> ray \<times> ray list)" where
  "test_ray self r removed_rays =
     ebind (Bat_get_rect self) (\<lambda>own.
     ebind (get_rect (ray_pos r) (ray_radius r)) (\<lambda>other.
       if colliderect own other then
         if collided r \<and> exited_bat r then
           let direction = smul (ray_facing r) (- 1)
           in ebind (nonzero2 direction) (\<lambda>nz.
                if nz then
                  ebind (normalize direction) (\<lambda>direction'.
                    Inr (self\<lparr>beams := beams self @
                                [Beam (bat_pos self) direction' (ray_strength r) (ray_interest r)]\<rparr>,
                         r, removed_rays @ [r]))
                else Inr (self, r, removed_rays @ [r]))
         else Inr (self, r, removed_rays)
       else if \<not> exited_bat r then Inr (self, r\<lparr>exited_bat := True\<rparr>, removed_rays)
       else Inr (self, r, removed_rays)))"

fun test_rays_loop :: "bat \<Rightarrow> ray list \<Rightarrow> ray list \<Rightarrow> error + (bat \<times> ray list \<times> ray list)" where
  "test_rays_loop self [] removed_rays = Inr (self, [], removed_rays)"
| "test_rays_loop self (r # rest) removed_rays =
     ebind (test_ray self r removed_rays) (\<lambda>(self1, r1, removed1).
     ebind (test_rays_loop self1 rest removed1) (\<lambda>(self2, rest2, removed2).
       Inr (self2, r1 # rest2, removed2)))"

text \<open>The second loop: \<^verbatim>\<open>for removed_ray in removed_rays: rays.remove(removed_ray)\<close>.\<close>

fun remove_rays :: "ray list \<Rightarrow> ray list \<Rightarrow> error + ray list" where
  "remove_rays [] rs = Inr rs"
| "remove_rays (removed_ray # rest) rs =
     ebind (list_remove removed_ray rs) (\<lambda>rs'. remove_rays rest rs')"

text \<open>
  \<open>test_rays self rs\<close> returns the Bat and the list \<open>rs\<close> as the call leaves them. When
  \<open>rs\<close> is the Bat's own list, the caller stores the returned list in the returned Bat.
\<close>

definition test_rays :: "bat \<Rightarrow> ray list \<Rightarrow> error + (bat \<times> ray list)" where
  "test_rays self rs =
     ebind (test_rays_loop self rs []) (\<lambda>(self1, rs1, removed_rays).
     ebind (remove_rays removed_rays rs1) (\<lambda>rs2. Inr (self1, rs2)))"

text \<open>
  \<^verbatim>\<open>Bat.get_average_beam\<close>; the line it draws on the screen is not modelled. Each pass of
  the loop adds \<^verbatim>\<open>beam.strength / RAY_STRENGTH * beam.rel * beam.interest\<close>.
\<close>

definition beam_term :: "beam \<Rightarrow> error + vector" where
  "beam_term b =
     ebind (py_div (beam_strength b) RAY_STRENGTH) (\<lambda>q.
       Inr (smul (smul (beam_rel b) q) (beam_interest b)))"

fun average_loop :: "beam list \<Rightarrow> vector \<Rightarrow> error + vector" where
  "average_loop [] average_beam = Inr average_beam"
| "average_loop (b # rest) average_beam =
     ebind (beam_term b) (\<lambda>rel. average_loop rest (vadd average_beam rel))"

definition get_average_beam :: "bat \<Rightarrow> error + vector" where
  "get_average_beam self = average_loop (beams self) (Vector [])"

subsection \<open>class Ray\<close>

text \<open>\<^verbatim>\<open>Ray.get_rect\<close>.\<close>

definition Ray_get_rect :: "ray \<Rightarrow> error + rect" where
  "Ray_get_rect self = get_rect (ray_pos self) (ray_radius self)"

text \<open>\<^verbatim>\<open>Ray.test_collision\<close>.\<close>

definition Ray_test_collision :: "wall list \<Rightarrow> ray \<Rightarrow> error + ray" where
  "Ray_test_collision walls self =
     ebind (Ray_get_rect self) (\<lambda>own.
       case collidelist own walls of
         None \<Rightarrow> Inr self
       | Some collide_index \<Rightarrow>
           ebind (py_div (ray_interest self + wall_interest (walls ! collide_index)) 2) (\<lambda>interest.
           ebind (sdiv (smul (ray_facing self) RAY_SPEED) 2) (\<lambda>half.
             let pos = vsub (ray_pos self) half
             in ebind (reflect (ray_facing self) pos (wall_rect (walls ! collide_index))) (\<lambda>f.
                  Inr (self\<lparr>collided := True,
                            ray_strength := ray_strength self - WALL_DECAY,
                            ray_interest := interest,
                            ray_pos := pos,
                            ray_facing := f\<rparr>)))))"

text \<open>
  \<^verbatim>\<open>Ray.update\<close>; \<open>parent_rays\<close> is \<^verbatim>\<open>self.parent.rays\<close>. It returns the Ray and the list as
  the call leaves them.
\<close>

definition Ray_update :: "wall list \<Rightarrow> ray \<Rightarrow> ray list \<Rightarrow> error + (ray \<times> ray list)" where
  "Ray_update walls self parent_rays =
     ebind (Ray_test_collision walls (self\<lparr>ray_strength := ray_strength self - RAY_DECAY\<rparr>)) (\<lambda>s1.
       if ray_strength s1 \<le> 0 then
         ebind (list_remove s1 parent_rays) (\<lambda>rs. Inr (s1, rs))
       else
         let s2 = s1\<lparr>ray_pos := vadd (ray_pos s1) (smul (ray_facing s1) RAY_SPEED)\<rparr>
         in Inr (s2, list_store s2 parent_rays))"

section \<open>The steering of main\<close>

text \<open>
  The lines of the main loop that follow \<^verbatim>\<open>average_beam = bat.get_average_beam()\<close>;
  \<open>is_first\<close> says whether the Bat is \<^verbatim>\<open>bats[0]\<close>.
\<close>

definition steer :: "bool \<Rightarrow> bat \<Rightarrow> vector \<Rightarrow> error + bat" where
  "steer is_first self average_beam =
     (if \<not> is_first \<or> AUTO_CONTROLLED then
        let s1 = self\<lparr>bat_vel := vadd (bat_vel self)
                    (smul (bat_facing self) (20 * norm_v average_beam + DEFAULT_SPEED))\<rparr>
        in ebind (nonzero2 average_beam) (\<lambda>nz.
             if nz then
               ebind (angle_to (bat_facing s1) average_beam) (\<lambda>angle.
                 let angle' = (if pi < angle then angle - pi * 2 else angle)
                 in Inr (s1\<lparr>ang_vel := ang_vel s1 - angle'\<rparr>))
             else Inr (s1\<lparr>ang_vel := ang_vel s1 + pi\<rparr>))
      else Inr self)"

section \<open>Conditions of the code, named\<close>

text \<open>
  The conditions that \<^verbatim>\<open>Bat.test_rays\<close> tests on one Ray: \<open>overlaps\<close> is
  \<^verbatim>\<open>self.get_rect().colliderect(ray.get_rect())\<close>, and a Ray is \<open>returning\<close> when it overlaps
  the Bat with \<^verbatim>\<open>collided\<close> and \<^verbatim>\<open>exited_bat\<close> both set.
\<close>

definition overlaps :: "bat \<Rightarrow> ray \<Rightarrow> bool" where
  "overlaps self r =
     (case Bat_get_rect self of
        Inl e \<Rightarrow> False
      | Inr own \<Rightarrow> (case Ray_get_rect r of Inl e \<Rightarrow> False | Inr other \<Rightarrow> colliderect own other))"

definition returning :: "bat \<Rightarrow> ray \<Rightarrow> bool" where
  "returning self r = (overlaps self r \<and> collided r \<and> exited_bat r)"

text \<open>
  The Beam that \<^verbatim>\<open>test_rays\<close> appends for a returning Ray: its direction is the negated
  facing of the Ray divided by its norm.
\<close>

definition echo_of :: "bat \<Rightarrow> ray \<Rightarrow> beam" where
  "echo_of self r =
     (let direction = smul (ray_facing r) (- 1)
      in Beam (bat_pos self) (map (\<lambda>c. c / norm_v direction) direction) (ray_strength r) (ray_interest r))"

text \<open>The \<^verbatim>\<open>elif\<close> branch of \<^verbatim>\<open>test_rays\<close>: a Ray that does not overlap the Bat has left it.\<close>

definition mark_exited :: "bat \<Rightarrow> ray \<Rightarrow> ray" where
  "mark_exited self r = (if \<not> overlaps self r \<and> \<not> exited_bat r then r\<lparr>exited_bat := True\<rparr> else r)"

section \<open>The loop of main over the Rays of a Bat\<close>

text \<open>
  \<^verbatim>\<open>for ray in bat.rays: ray.update()\<close>. The iterator of a Python list holds an index
  \<open>i\<close> into the list and stops when \<open>i\<close> reaches the length the list has then; an
  \<^verbatim>\<open>update\<close> that removes its Ray shortens the list under the iterator. \<open>fuel\<close> bounds the
  number of passes: the list never grows, so its length at the start is enough
  (\<open>rays_loop_fuel\<close> below).
\<close>

fun rays_loop :: "wall list \<Rightarrow> nat \<Rightarrow> nat \<Rightarrow> ray list \<Rightarrow> error + ray list" where
  "rays_loop walls 0 i rs = Inr rs"
| "rays_loop walls (Suc fuel) i rs =
     (if i < length rs
      then ebind (Ray_update walls (rs ! i) rs) (\<lambda>(s, rs'). rays_loop walls fuel (Suc i) rs')
      else Inr rs)"

definition update_rays :: "wall list \<Rightarrow> ray list \<Rightarrow> error + ray list" where
  "update_rays walls rs = rays_loop walls (length rs) 0 rs"

text \<open>
  The ticks of the program are the passes of the \<^verbatim>\<open>while\<close> loop of \<^verbatim>\<open>main\<close>, one per
  frame, and each pass runs the loop above once for every Bat. \<open>rays_frames walls n rs\<close>
  is the list of one Bat after \<open>n\<close> passes. The other statements of a pass are left
  out: \<^verbatim>\<open>emit\<close> only appends new Rays at the end of the list, and \<^verbatim>\<open>test_rays\<close> changes
  nothing but the flag \<^verbatim>\<open>exited_bat\<close> of a Ray that has not collided.
\<close>

fun rays_frames :: "wall list \<Rightarrow> nat \<Rightarrow> ray list \<Rightarrow> error + ray list" where
  "rays_frames walls 0 rs = Inr rs"
| "rays_frames walls (Suc n) rs = ebind (rays_frames walls n rs) (update_rays walls)"

section \<open>Concrete objects\<close>

text \<open>The Ray that \<^verbatim>\<open>Ray.__init__\<close> builds, written out with the values of the configuration.\<close>

definition new_ray :: "nat \<Rightarrow> vector \<Rightarrow> real \<Rightarrow> ray" where
  "new_ray fresh pos angle = \<lparr>ident = fresh, ray_pos = pos, ray_facing = [cos angle, sin angle],
     collided = False, exited_bat = False, ray_strength = 200, ray_interest = 0, ray_radius = 4\<rparr>"

text \<open>
  A Ray that moves upwards into the wall above it: its box reaches over the bottom edge
  of \<open>wall0\<close>.
\<close>

definition ray0 :: ray where
  "ray0 = \<lparr>ident = 0, ray_pos = [50, 112], ray_facing = [0, - 1], collided = False,
     exited_bat = True, ray_strength = 100, ray_interest = 0, ray_radius = 4\<rparr>"

definition wall0 :: wall where
  "wall0 = \<lparr>wall_rect = \<lparr>rect_left = 0, rect_top = 0, rect_w = 100, rect_h = 110\<rparr>,
     wall_interest = 1, collides_bat = True\<rparr>"

text \<open>
  A Bat that moves to the right, a wall \<open>solid\<close> that blocks Bats in its way, and a wall
  \<open>glass\<close> that does not block Bats and lies where the Bat is.
\<close>

definition bat1 :: bat where
  "bat1 = \<lparr>bat_pos = [100, 100], bat_vel = [60, 0], bat_facing = [1, 0], ang_vel = 0,
     friction = 1.1, rays = [], beams = [], bat_radius = 10\<rparr>"

definition glass :: wall where
  "glass = \<lparr>wall_rect = \<lparr>rect_left = 95, rect_top = 95, rect_w = 10, rect_h = 10\<rparr>,
     wall_interest = 0.2, collides_bat = False\<rparr>"

definition solid :: wall where
  "solid = \<lparr>wall_rect = \<lparr>rect_left = 105, rect_top = 0, rect_w = 50, rect_h = 200\<rparr>,
     wall_interest = - 0.5, collides_bat = True\<rparr>"

text \<open>A Bat at (100, 100) that faces 0 radians and has not emitted yet.\<close>

definition bat2 :: bat where
  "bat2 = \<lparr>bat_pos = [100, 100], bat_vel = [0, 0], bat_facing = [1, 0], ang_vel = 0,
     friction = 1.1, rays = [], beams = [], bat_radius = 10\<rparr>"

text \<open>Two Beams: one along the X axis, one along the Y axis with a negative interest.\<close>

definition beam1 :: beam where
  "beam1 = \<lparr>beam_start = [100, 100], beam_rel = [1, 0], beam_strength = 100, beam_interest = 1 / 2,
     beam_width = 2\<rparr>"

definition beam2 :: beam where
  "beam2 = \<lparr>beam_start = [100, 100], beam_rel = [0, 1], beam_strength = 50, beam_interest = - 1,
     beam_width = 2\<rparr>"

text \<open>
  Three Rays for \<open>bat2\<close>: \<open>rayA\<close> has come back with a facing of zero, \<open>rayB\<close> has come
  back with a facing along the X axis, and \<open>rayC\<close> is far from the Bat.
\<close>

definition rayA :: ray where
  "rayA = \<lparr>ident = 1, ray_pos = [100, 100], ray_facing = [0, 0], collided = True,
     exited_bat = True, ray_strength = 50, ray_interest = 1 / 2, ray_radius = 4\<rparr>"

definition rayB :: ray where
  "rayB = \<lparr>ident = 2, ray_pos = [105, 100], ray_facing = [1, 0], collided = True,
     exited_bat = True, ray_strength = 60, ray_interest = - 1 / 2, ray_radius = 4\<rparr>"

definition rayC :: ray where
  "rayC = \<lparr>ident = 3, ray_pos = [500, 500], ray_facing = [1, 0], collided = False,
     exited_bat = False, ray_strength = 199, ray_interest = 0, ray_radius = 4\<rparr>"

text \<open>
  Two new Rays of one emission, at full strength, next to each other in the list of
  their Bat. \<open>rayE\<close> flies downwards and \<open>rayF\<close> to the right; neither ever meets \<open>wall0\<close>.
\<close>

definition rayE :: ray where
  "rayE = \<lparr>ident = 6, ray_pos = [200, 300], ray_facing = [0, 1], collided = False,
     exited_bat = False, ray_strength = 200, ray_interest = 0, ray_radius = 4\<rparr>"

definition rayF :: ray where
  "rayF = \<lparr>ident = 7, ray_pos = [200, 300], ray_facing = [1, 0], collided = False,
     exited_bat = False, ray_strength = 200, ray_interest = 0, ray_radius = 4\<rparr>"

text \<open>Two Rays of strength 1 in free flight, held by the same list.\<close>

definition rayG :: ray where
  "rayG = \<lparr>ident = 8, ray_pos = [200, 300], ray_facing = [1, 0], collided = False,
     exited_bat = False, ray_strength = 1, ray_interest = 0, ray_radius = 4\<rparr>"

definition rayH :: ray where
  "rayH = \<lparr>ident = 9, ray_pos = [200, 300], ray_facing = [0, 1], collided = False,
     exited_bat = False, ray_strength = 1, ray_interest = 0, ray_radius = 4\<rparr>"

section \<open>Rotation\<close>

lemma rotate_pair:
  "rotate [x, y] t = Inr [cos t * x - sin t * y, sin t * x + cos t * y]"
  by (simp add: rotate_def rotate2D_def Vector_def Let_def)

lemma length2_pair:
  assumes "length v = 2"
  obtains x y where "v = [x, y]"
proof -
  from assms obtain x r where v: "v = x # r" and "length r = 1"
    by (cases v) auto
  then obtain y where "r = [y]"
    by (cases r) auto
  with v that show thesis by simp
qed

lemma rot_back_x:
  fixes c s x y :: real
  assumes cs: "c * c + s * s = 1"
  shows "c * (c * x - s * y) + s * (s * x + c * y) = x"
proof -
  have "c * (c * x - s * y) + s * (s * x + c * y) = (c * c + s * s) * x"
    by (simp only: algebra_simps)
  then show ?thesis by (simp only: cs mult_1)
qed

lemma rot_back_y:
  fixes c s x y :: real
  assumes cs: "c * c + s * s = 1"
  shows "c * (s * x + c * y) - s * (c * x - s * y) = y"
proof -
  have "c * (s * x + c * y) - s * (c * x - s * y) = (c * c + s * s) * y"
    by (simp only: algebra_simps)
  then show ?thesis by (simp only: cs mult_1)
qed

text \<open>
  C9. For every vector \<open>v\<close> of two components and every angle \<open>\<theta>\<close>, rotating \<open>v\<close> by
  \<open>\<theta>\<close> succeeds, and rotating the result by \<open>-\<theta>\<close> gives \<open>v\<close> back (exactly, over the reals).
\<close>

theorem rotate_inverse:
  assumes "length v = 2"
  shows "\<exists>w. rotate v \<theta> = Inr w \<and> rotate w (- \<theta>) = Inr v"
proof -
  from assms obtain x y where v: "v = [x, y]"
    by (rule length2_pair)
  have cs: "cos \<theta> * cos \<theta> + sin \<theta> * sin \<theta> = 1"
    using sin_cos_squared_add2 [of \<theta>] by (simp add: power2_eq_square)
  have "rotate [cos \<theta> * x - sin \<theta> * y, sin \<theta> * x + cos \<theta> * y] (- \<theta>) = Inr [x, y]"
    using rot_back_x [OF cs, of x y] rot_back_y [OF cs, of x y] by (simp add: rotate_pair)
  then show ?thesis
    by (simp add: v rotate_pair)
qed

theorem rotate_inverse_witness:
  "length [3, 4 :: real] = 2 \<and>
   (\<exists>w. rotate [3, 4] (pi / 2) = Inr w \<and> rotate w (- (pi / 2)) = Inr [3, 4])"
  using rotate_inverse [of "[3, 4]" "pi / 2"] by simp

section \<open>Norm, normalisation and argument\<close>

lemma sum_sq_nonneg: "0 \<le> sum_list (map (\<lambda>c. c ^ 2) (v :: real list))"
  by (induction v) auto

lemma norm_v_nonneg: "0 \<le> norm_v v"
  by (simp add: norm_v_def sum_sq_nonneg)

lemma sum_sq_zero_iff: "sum_list (map (\<lambda>c. c ^ 2) (v :: real list)) = 0 \<longleftrightarrow> (\<forall>c \<in> set v. c = 0)"
proof (induction v)
  case Nil
  show ?case by simp
next
  case (Cons a v)
  have "a ^ 2 + sum_list (map (\<lambda>c. c ^ 2) v) = 0 \<longleftrightarrow> a ^ 2 = 0 \<and> sum_list (map (\<lambda>c. c ^ 2) v) = 0"
    using sum_sq_nonneg [of v] by (intro add_nonneg_eq_0_iff) auto
  with Cons show ?case by auto
qed

lemma norm_v_zero_iff: "norm_v v = 0 \<longleftrightarrow> (\<forall>c \<in> set v. c = 0)"
  by (simp add: norm_v_def sum_sq_zero_iff)

lemma div_all_nonzero: "d \<noteq> 0 \<Longrightarrow> div_all v d = Inr (map (\<lambda>c. c / d) v)"
  by (induction v) (simp_all add: py_div_def ebind_def)

lemma div_all_zero: "v \<noteq> [] \<Longrightarrow> div_all v 0 = Inl ZeroDivisionError"
  by (cases v) (simp_all add: py_div_def ebind_def)

lemma Vector_nonempty: "Vector args \<noteq> []"
  by (simp add: Vector_def)

lemma normalize_nonzero:
  "norm_v v \<noteq> 0 \<Longrightarrow> normalize v = Inr (map (\<lambda>c. c / norm_v v) v)"
proof -
  assume n: "norm_v v \<noteq> 0"
  then have "v \<noteq> []" by (auto simp: norm_v_def)
  then show ?thesis
    by (simp add: normalize_def div_all_nonzero [OF n] ebind_def Vector_def)
qed

lemma normalize_zero:
  "v \<noteq> [] \<Longrightarrow> norm_v v = 0 \<Longrightarrow> normalize v = Inl ZeroDivisionError"
  by (simp add: normalize_def div_all_zero ebind_def)

lemma sum_sq_scale:
  "sum_list (map (\<lambda>c. c ^ 2) (map (\<lambda>c. c / d) v)) = sum_list (map (\<lambda>c. c ^ 2) v) / d ^ 2"
  for d :: real
  by (induction v) (simp_all add: power_divide add_divide_distrib)

lemma norm_v_normalized:
  assumes "norm_v v \<noteq> 0"
  shows "norm_v (map (\<lambda>c. c / norm_v v) v) = 1"
proof -
  have pos: "0 < norm_v v"
    using assms norm_v_nonneg [of v] by simp
  have "norm_v (map (\<lambda>c. c / norm_v v) v) = sqrt (sum_list (map (\<lambda>c. c ^ 2) v) / (norm_v v) ^ 2)"
    unfolding norm_v_def [of "map _ _"] sum_sq_scale ..
  also have "\<dots> = sqrt (sum_list (map (\<lambda>c. c ^ 2) v)) / norm_v v"
    using pos by (simp add: real_sqrt_divide)
  also have "\<dots> = 1"
    using pos by (simp add: norm_v_def)
  finally show ?thesis .
qed

lemma dot_unit_x: "dot (Vector [1, 0]) (x # r) = x"
  by (cases r) (simp_all add: dot_def Vector_def)

lemma abs_head_le_norm: "\<bar>x\<bar> \<le> norm_v (x # r)"
proof -
  have "sqrt (x ^ 2) \<le> sqrt (x ^ 2 + sum_list (map (\<lambda>c. c ^ 2) r))"
    using sum_sq_nonneg [of r] by (intro real_sqrt_le_mono) simp
  then show ?thesis by (simp add: norm_v_def)
qed

lemma head_eq_norm_tail_zero:
  assumes "x = norm_v (x # y # r)"
  shows "y = 0"
proof -
  have "x ^ 2 = (norm_v (x # y # r)) ^ 2" using assms by simp
  also have "\<dots> = x ^ 2 + (y ^ 2 + sum_list (map (\<lambda>c. c ^ 2) r))"
    using sum_sq_nonneg [of "x # y # r"] by (simp add: norm_v_def)
  finally have "y ^ 2 + sum_list (map (\<lambda>c. c ^ 2) r) = 0" by simp
  then have "y ^ 2 = 0"
    using sum_sq_nonneg [of r] by (simp add: add_nonneg_eq_0_iff)
  then show ?thesis by simp
qed

lemma argument_cons2:
  assumes n: "norm_v (x # y # r) \<noteq> 0"
  shows "argument (x # y # r) =
    Inr (if y < 0 then 2 * pi - arccos (x / norm_v (x # y # r)) else arccos (x / norm_v (x # y # r)))"
proof -
  have pos: "0 < norm_v (x # y # r)"
    using n norm_v_nonneg [of "x # y # r"] by simp
  have "- norm_v (x # y # r) \<le> x \<and> x \<le> norm_v (x # y # r)"
    using abs_head_le_norm [of x "y # r"] by linarith
  then have "- 1 \<le> x / norm_v (x # y # r) \<and> x / norm_v (x # y # r) \<le> 1"
    using pos by (simp add: le_divide_eq divide_le_eq)
  then show ?thesis
    using n by (simp add: argument_def dot_unit_x py_div_def ebind_def acos_def getitem_def)
qed

lemma argument_zero:
  assumes "v \<noteq> []" "norm_v v = 0"
  shows "argument v = Inl ZeroDivisionError"
  using assms by (simp add: argument_def py_div_def ebind_def)

lemma argument_single:
  assumes "x \<noteq> 0"
  shows "argument [x] = Inl IndexError"
proof -
  have n: "norm_v [x] = \<bar>x\<bar>" by (simp add: norm_v_def)
  have "- 1 \<le> x / \<bar>x\<bar> \<and> x / \<bar>x\<bar> \<le> 1"
    using assms by (cases "0 \<le> x") simp_all
  then show ?thesis
    using assms by (simp add: argument_def n dot_unit_x py_div_def ebind_def acos_def getitem_def)
qed

lemma argument_range:
  assumes n: "norm_v (x # y # r) \<noteq> 0"
  shows "\<exists>t. argument (x # y # r) = Inr t \<and> 0 \<le> t \<and> t < 2 * pi \<and>
             (y < 0 \<longrightarrow> pi \<le> t) \<and> (0 \<le> y \<longrightarrow> t \<le> pi)"
proof -
  let ?n = "norm_v (x # y # r)"
  have pos: "0 < ?n"
    using n norm_v_nonneg [of "x # y # r"] by simp
  have "- ?n \<le> x \<and> x \<le> ?n"
    using abs_head_le_norm [of x "y # r"] by linarith
  then have q: "- 1 \<le> x / ?n" "x / ?n \<le> 1"
    using pos by (simp_all add: le_divide_eq divide_le_eq)
  have lb: "0 \<le> arccos (x / ?n)" and ub: "arccos (x / ?n) \<le> pi"
    using q by (simp_all add: arccos_lbound arccos_ubound)
  show ?thesis
  proof (cases "y < 0")
    case True
    have "x \<noteq> ?n"
      using head_eq_norm_tail_zero [of x y r] True by auto
    then have "x / ?n \<noteq> 1"
      using pos by simp
    then have "arccos (x / ?n) \<noteq> 0"
      using q cos_arccos [of "x / ?n"] by (metis cos_zero)
    with lb have "0 < arccos (x / ?n)" by simp
    with ub True show ?thesis
      by (simp add: argument_cons2 [OF n])
  next
    case False
    have "arccos (x / ?n) < 2 * pi"
      using ub pi_gt_zero by linarith
    with lb ub False show ?thesis
      by (simp add: argument_cons2 [OF n])
  qed
qed

lemma argument_polar:
  assumes n: "norm_v [x, y] \<noteq> 0" and t: "argument [x, y] = Inr t"
  shows "rotate [norm_v [x, y], 0] t = Inr [x, y]"
proof -
  let ?n = "norm_v [x, y]"
  let ?q = "x / ?n"
  have pos: "0 < ?n"
    using n norm_v_nonneg [of "[x, y]"] by simp
  have nsq: "?n ^ 2 = x ^ 2 + y ^ 2"
    by (simp add: norm_v_def)
  have "- ?n \<le> x \<and> x \<le> ?n"
    using abs_head_le_norm [of x "[y]"] by linarith
  then have q: "- 1 \<le> ?q" "?q \<le> 1"
    using pos by (simp_all add: le_divide_eq divide_le_eq)
  have c: "cos (arccos ?q) = ?q"
    using q by (rule cos_arccos)
  have n2: "?n ^ 2 \<noteq> 0"
    using pos by simp
  have "1 - ?q ^ 2 = (?n ^ 2 - x ^ 2) / ?n ^ 2"
    using n2 by (simp add: power_divide diff_divide_distrib)
  also have "\<dots> = (y / ?n) ^ 2"
    by (simp add: nsq power_divide)
  finally have "1 - ?q ^ 2 = (y / ?n) ^ 2" .
  then have s: "sin (arccos ?q) = \<bar>y\<bar> / ?n"
    using q pos by (simp add: sin_arccos real_sqrt_divide power_divide)
  show ?thesis
  proof (cases "y < 0")
    case True
    then have "t = 2 * pi - arccos ?q"
      using t by (simp add: argument_cons2 [OF n])
    then have "cos t = ?q" "sin t = y / ?n"
      using c s True by (simp_all add: cos_diff sin_diff)
    then show ?thesis
      using pos by (simp add: rotate_pair)
  next
    case False
    then have "t = arccos ?q"
      using t by (simp add: argument_cons2 [OF n])
    then have "cos t = ?q" "sin t = y / ?n"
      using c s False by simp_all
    then show ?thesis
      using pos by (simp add: rotate_pair)
  qed
qed

text \<open>
  C6. Let \<open>v\<close> be any Vector object (built by the constructor, so it has at least one
  component). \<open>normalize\<close> raises ZeroDivisionError exactly when \<open>v\<close> has norm 0, and so
  does \<open>argument\<close>; the norm is 0 exactly when every component is 0. When the norm is not
  0, \<open>normalize\<close> returns a vector (of the same length and of norm 1), and, for a vector
  that has a Y component, \<open>argument\<close> returns an angle \<open>t\<close> with \<open>0 \<le> t < 2\<pi>\<close>, which is
  at least \<open>\<pi>\<close> when the Y component is negative and at most \<open>\<pi>\<close> otherwise. For a vector
  of the plane \<open>t\<close> is the angle from the positive X axis towards the positive Y axis
  (clockwise on a screen, where Y grows downwards): rotating the vector of the same
  norm on the positive X axis by \<open>t\<close> gives \<open>v\<close>.
\<close>

theorem normalize_argument_zero_division:
  "let v = Vector args in
     ((normalize v = Inl ZeroDivisionError) = (norm_v v = 0)) \<and>
     ((argument v = Inl ZeroDivisionError) = (norm_v v = 0)) \<and>
     ((norm_v v = 0) = (\<forall>c \<in> set v. c = 0)) \<and>
     (norm_v v \<noteq> 0 \<longrightarrow>
        (\<exists>w. normalize v = Inr w \<and> length w = length v \<and> norm_v w = 1)) \<and>
     (norm_v v \<noteq> 0 \<and> 2 \<le> length v \<longrightarrow>
        (\<exists>t. argument v = Inr t \<and> 0 \<le> t \<and> t < 2 * pi \<and>
             (v ! 1 < 0 \<longrightarrow> pi \<le> t) \<and> (0 \<le> v ! 1 \<longrightarrow> t \<le> pi) \<and>
             (length v = 2 \<longrightarrow> rotate [norm_v v, 0] t = Inr v)))"
proof -
  define v where "v = Vector args"
  have ne: "v \<noteq> []"
    by (simp add: v_def Vector_nonempty)
  have A: "(normalize v = Inl ZeroDivisionError) = (norm_v v = 0)"
  proof (cases "norm_v v = 0")
    case True
    with ne show ?thesis by (simp add: normalize_zero)
  next
    case False
    then show ?thesis by (simp add: normalize_nonzero)
  qed
  have B: "(argument v = Inl ZeroDivisionError) = (norm_v v = 0)"
  proof
    assume e: "argument v = Inl ZeroDivisionError"
    show "norm_v v = 0"
    proof (rule ccontr)
      assume n: "norm_v v \<noteq> 0"
      from ne obtain x r where xr: "v = x # r" by (cases v) auto
      show False
      proof (cases r)
        case Nil
        with xr n have "x \<noteq> 0" by (auto simp: norm_v_def)
        with e xr Nil show False by (simp add: argument_single)
      next
        case (Cons y r')
        with e xr n show False by (simp add: argument_cons2)
      qed
    qed
  next
    assume "norm_v v = 0"
    with ne show "argument v = Inl ZeroDivisionError" by (rule argument_zero)
  qed
  have C: "(norm_v v = 0) = (\<forall>c \<in> set v. c = 0)"
    by (rule norm_v_zero_iff)
  have D: "\<exists>w. normalize v = Inr w \<and> length w = length v \<and> norm_v w = 1"
    if "norm_v v \<noteq> 0"
    using that by (simp add: normalize_nonzero norm_v_normalized)
  have E: "\<exists>t. argument v = Inr t \<and> 0 \<le> t \<and> t < 2 * pi \<and>
             (v ! 1 < 0 \<longrightarrow> pi \<le> t) \<and> (0 \<le> v ! 1 \<longrightarrow> t \<le> pi) \<and>
             (length v = 2 \<longrightarrow> rotate [norm_v v, 0] t = Inr v)"
    if n: "norm_v v \<noteq> 0" and l: "2 \<le> length v"
  proof -
    from l obtain x y r where xyr: "v = x # y # r"
      by (cases v; cases "tl v") auto
    from argument_range [of x y r] n xyr obtain t where
      t: "argument v = Inr t" "0 \<le> t" "t < 2 * pi" "y < 0 \<longrightarrow> pi \<le> t" "0 \<le> y \<longrightarrow> t \<le> pi"
      by auto
    have "rotate [norm_v v, 0] t = Inr v" if "length v = 2"
    proof -
      from that xyr have "r = []" by simp
      with argument_polar [of x y t] n t(1) xyr show ?thesis by simp
    qed
    with t xyr show ?thesis by simp
  qed
  from A B C D E show ?thesis
    unfolding Let_def v_def [symmetric] by blast
qed

theorem normalize_argument_zero_division_witness:
  "norm_v (Vector [3, 4]) \<noteq> 0 \<and> 2 \<le> length (Vector [3, 4]) \<and>
   (\<exists>w. normalize (Vector [3, 4]) = Inr w \<and> norm_v w = 1) \<and>
   (\<exists>t. argument (Vector [3, 4]) = Inr t \<and> 0 \<le> t \<and> t \<le> pi \<and>
        rotate [norm_v (Vector [3, 4]), 0] t = Inr (Vector [3, 4])) \<and>
   norm_v (Vector []) = 0 \<and>
   normalize (Vector []) = Inl ZeroDivisionError \<and>
   argument (Vector []) = Inl ZeroDivisionError"
proof -
  have n: "norm_v (Vector [3, 4]) \<noteq> 0" and l: "2 \<le> length (Vector [3, 4])"
    by (simp_all add: Vector_def norm_v_def)
  have z: "norm_v (Vector []) = 0"
    by (simp add: Vector_def norm_v_def)
  have y: "0 \<le> Vector [3, 4] ! 1" and l2: "length (Vector [3, 4]) = 2"
    by (simp_all add: Vector_def)
  from normalize_argument_zero_division [of "[3, 4]"] n l y l2
       normalize_argument_zero_division [of "[]"] z
  show ?thesis
    unfolding Let_def by blast
qed

section \<open>Evaluation rules\<close>

named_theorems vec2 \<open>evaluation of the Vector operations on two components\<close>

lemma ebind_Inr [simp]: "ebind (Inr x) f = f x"
  by (simp add: ebind_def)

lemma ebind_Inl [simp]: "ebind (Inl e) f = Inl e"
  by (simp add: ebind_def)

lemma sdiv_nonzero: "d \<noteq> 0 \<Longrightarrow> sdiv v d = Inr (Vector (map (\<lambda>a. a / d) v))"
  by (simp add: sdiv_def div_all_nonzero)

lemma smul2 [vec2]: "smul [x, y] k = [x * k, y * k]"
  by (simp add: smul_def Vector_def)

lemma sdiv2 [vec2]: "d \<noteq> 0 \<Longrightarrow> sdiv [x, y] d = Inr [x / d, y / d]"
  by (simp add: sdiv_nonzero Vector_def)

lemma vadd2 [vec2]: "vadd [x, y] [x', y'] = [x + x', y + y']"
  by (simp add: vadd_def Vector_def)

lemma vsub2 [vec2]: "vsub [x, y] [x', y'] = [x - x', y - y']"
  by (simp add: vsub_def Vector_def)

lemma ssub2 [vec2]: "ssub [x, y] k = [x - k, y - k]"
  by (simp add: ssub_def Vector_def)

lemma getitem2 [vec2]: "getitem [x, y] 0 = Inr x" "getitem [x, y] (Suc 0) = Inr y" "getitem [x, y] 1 = Inr y"
  by (simp_all add: getitem_def)

lemma setitem2 [vec2]: "setitem [x, y] 0 c = Inr [c, y]" "setitem [x, y] (Suc 0) c = Inr [x, c]"
  "setitem [x, y] 1 c = Inr [x, c]"
  by (simp_all add: setitem_def)

lemma get_rect2 [vec2]:
  "get_rect [x, y] r = Inr \<lparr>rect_left = py_round (x - of_int r), rect_top = py_round (y - of_int r),
      rect_w = 2 * r, rect_h = 2 * r\<rparr>"
  by (simp add: get_rect_def vround_def ssub2)

lemma py_round_of_int [simp]: "py_round (of_int n) = n"
  by (simp add: py_round_def)

lemma py_round_numeral [simp]: "py_round (numeral n) = numeral n"
  using py_round_of_int [of "numeral n"] by simp

section \<open>Rotation by a matrix\<close>

lemma rotate_matrix_nonempty: "matrix \<noteq> [] \<Longrightarrow> rotate_matrix self matrix = Inl NameError"
  by (cases matrix) (simp_all add: rotate_matrix_def global_v_def)

lemma rotate_matrix_empty: "self \<noteq> [] \<Longrightarrow> rotate_matrix self [] = Inl ValueError"
  by (simp add: rotate_matrix_def)

text \<open>
  C5 (the code does not do what the claim says). \<^verbatim>\<open>Vector(1, 2).rotate([[1, 0], [0, 1]])\<close>, a
  square matrix of the dimension of the vector, raises NameError: it returns no
  product, and the error is not the ValueError of a dimension mismatch. \<^verbatim>\<open>matrix_mult\<close>
  itself, on the example of its docstring, returns a Vector of three Vectors (the rows
  multiplied by the vector component by component) where the docstring promises
  \<^verbatim>\<open>(14, 2, 26)\<close>.
\<close>

theorem rotate_matrix_raises_NameError:
  "rotate_matrix [1, 2] [[1, 0], [0, 1]] = Inl NameError \<and>
   matrix_mult [1, 2, 3] [[1, 2, 3], [- 1, 0, 1], [3, 4, 5]]
     = Inr (Vectors [[1, 4, 9], [- 1, 0, 3], [3, 8, 15]])"
  by (simp add: rotate_matrix_def global_v_def matrix_mult_def vmul_def Vector_def)

text \<open>
  At that input the code returns neither the product \<open>(1, 2)\<close> that the claim promises
  nor the ValueError of a dimension mismatch.
\<close>

theorem rotate_matrix_raises_NameError_witness:
  "rotate_matrix [1, 2] [[1, 0], [0, 1]] \<noteq> Inr (Numbers [1, 2]) \<and>
   rotate_matrix [1, 2] [[1, 0], [0, 1]] \<noteq> Inl ValueError"
  using rotate_matrix_raises_NameError by simp

section \<open>Reflection of a Ray\<close>

lemma reflect_edge:
  assumes "close_edge pos r = Inr e" "vel_index e < length v"
  shows "reflect v pos r = Inr (v[vel_index e := positivity e * \<bar>v ! vel_index e\<bar>])"
  using assms by (simp add: reflect_def getitem_def setitem_def)

lemma Ray_test_collision_hit:
  assumes own: "Ray_get_rect self = Inr own"
    and hit: "collidelist own walls = Some i"
    and half: "sdiv (smul (ray_facing self) RAY_SPEED) 2 = Inr half"
    and edge: "close_edge (vsub (ray_pos self) half) (wall_rect (walls ! i)) = Inr e"
    and len: "vel_index e < length (ray_facing self)"
  shows "Ray_test_collision walls self =
     Inr (self\<lparr>collided := True,
              ray_strength := ray_strength self - WALL_DECAY,
              ray_interest := (ray_interest self + wall_interest (walls ! i)) / 2,
              ray_pos := vsub (ray_pos self) half,
              ray_facing := (ray_facing self)[vel_index e := positivity e * \<bar>ray_facing self ! vel_index e\<bar>]\<rparr>)"
  using own hit half by (simp add: Ray_test_collision_def py_div_def reflect_edge [OF edge len])

lemma Ray_test_collision_miss:
  assumes "Ray_get_rect self = Inr own" "collidelist own walls = None"
  shows "Ray_test_collision walls self = Inr self"
  using assms by (simp add: Ray_test_collision_def)

text \<open>
  C8 (amended). When a Ray collides with a wall and the closest edge, by the test on the
  four distances, is the bottom edge of the wall (index 3), \<^verbatim>\<open>test_collision\<close> succeeds
  and sets the Y component of the facing to its absolute value: it is 0 or positive
  (the Ray leaves downwards, away from the wall above it), never forced negative. The X
  component is unchanged.
\<close>

theorem Ray_bottom_edge_facing:
  assumes own: "Ray_get_rect self = Inr own"
    and hit: "collidelist own walls = Some i"
    and half: "sdiv (smul (ray_facing self) RAY_SPEED) 2 = Inr half"
    and edge: "close_edge (vsub (ray_pos self) half) (wall_rect (walls ! i)) = Inr 3"
    and len: "2 \<le> length (ray_facing self)"
  shows "\<exists>s. Ray_test_collision walls self = Inr s \<and>
             ray_facing s ! 1 = \<bar>ray_facing self ! 1\<bar> \<and> 0 \<le> ray_facing s ! 1 \<and>
             ray_facing s ! 0 = ray_facing self ! 0"
proof -
  have v: "vel_index 3 = 1" and p: "positivity 3 = 1"
    by (simp_all add: vel_index_def positivity_def)
  from len have l: "vel_index 3 < length (ray_facing self)"
    by (simp add: v)
  show ?thesis
    using len by (simp add: Ray_test_collision_hit [OF own hit half edge l] v p)
qed

text \<open>The top edge (index 2) is the one that forces the Y component to be 0 or negative.\<close>

lemma Ray_top_edge_facing:
  assumes own: "Ray_get_rect self = Inr own"
    and hit: "collidelist own walls = Some i"
    and half: "sdiv (smul (ray_facing self) RAY_SPEED) 2 = Inr half"
    and edge: "close_edge (vsub (ray_pos self) half) (wall_rect (walls ! i)) = Inr 2"
    and len: "2 \<le> length (ray_facing self)"
  shows "\<exists>s. Ray_test_collision walls self = Inr s \<and>
             ray_facing s ! 1 = - \<bar>ray_facing self ! 1\<bar> \<and> ray_facing s ! 1 \<le> 0"
proof -
  have v: "vel_index 2 = 1" and p: "positivity 2 = - 1"
    by (simp_all add: vel_index_def positivity_def)
  from len have l: "vel_index 2 < length (ray_facing self)"
    by (simp add: v)
  show ?thesis
    using len by (simp add: Ray_test_collision_hit [OF own hit half edge l] v p)
qed

text \<open>The example: \<open>ray0\<close> under \<open>wall0\<close>.\<close>

lemma ray0_rect_any: "Ray_get_rect (ray0\<lparr>ray_strength := s\<rparr>) = Inr \<lparr>rect_left = 46, rect_top = 108, rect_w = 8, rect_h = 8\<rparr>"
  by (simp add: Ray_get_rect_def ray0_def vec2)

lemma ray0_hits: "collidelist \<lparr>rect_left = 46, rect_top = 108, rect_w = 8, rect_h = 8\<rparr> [wall0] = Some 0"
  by (simp add: colliderect_def wall0_def)

lemma ray0_edge: "close_edge [50, 116] (wall_rect wall0) = Inr 3"
  by (simp add: close_edge_def edge_lengths_def vec2 wall0_def rect_right_def rect_bottom_def)

lemma ray0_collision: "Ray_test_collision [wall0] (ray0\<lparr>ray_strength := s\<rparr>) =
    Inr (ray0\<lparr>collided := True, ray_strength := s - 10, ray_interest := 1 / 2,
             ray_pos := [50, 116], ray_facing := [0, 1]\<rparr>)"
  apply (simp add: Ray_test_collision_def ray0_rect_any ray0_hits)
  apply (simp add: ray0_def py_div_def vec2 RAY_SPEED_def WALL_DECAY_def reflect_def ray0_edge vel_index_def positivity_def)
  apply (simp add: wall0_def colliderect_def)
  done

lemma ray0_rect: "Ray_get_rect ray0 = Inr \<lparr>rect_left = 46, rect_top = 108, rect_w = 8, rect_h = 8\<rparr>"
  using ray0_rect_any [of "ray_strength ray0"] by simp

lemma ray0_half: "sdiv (smul (ray_facing ray0) RAY_SPEED) 2 = Inr [0, - 4]"
  by (simp add: ray0_def vec2 RAY_SPEED_def)

lemma ray0_edge_stepped: "close_edge (vsub (ray_pos ray0) [0, - 4]) (wall_rect ([wall0] ! 0)) = Inr 3"
  using ray0_edge by (simp add: ray0_def vec2)

text \<open>The amended C8 at \<open>ray0\<close> and \<open>wall0\<close>.\<close>

theorem Ray_bottom_edge_facing_witness:
  "Ray_get_rect ray0 = Inr \<lparr>rect_left = 46, rect_top = 108, rect_w = 8, rect_h = 8\<rparr> \<and>
   collidelist \<lparr>rect_left = 46, rect_top = 108, rect_w = 8, rect_h = 8\<rparr> [wall0] = Some 0 \<and>
   sdiv (smul (ray_facing ray0) RAY_SPEED) 2 = Inr [0, - 4] \<and>
   close_edge (vsub (ray_pos ray0) [0, - 4]) (wall_rect ([wall0] ! 0)) = Inr 3 \<and>
   2 \<le> length (ray_facing ray0) \<and>
   (\<exists>s. Ray_test_collision [wall0] ray0 = Inr s \<and>
        ray_facing s ! 1 = \<bar>ray_facing ray0 ! 1\<bar> \<and> 0 \<le> ray_facing s ! 1 \<and>
        ray_facing s ! 0 = ray_facing ray0 ! 0)"
proof -
  have l: "2 \<le> length (ray_facing ray0)"
    by (simp add: ray0_def)
  from Ray_bottom_edge_facing [OF ray0_rect ray0_hits ray0_half ray0_edge_stepped l] ray0_rect ray0_hits ray0_half ray0_edge_stepped l show ?thesis
    by blast
qed

lemma ray0_update:
  "Ray_update [wall0] ray0 [ray0] =
     Inr (ray0\<lparr>collided := True, ray_strength := 89, ray_interest := 1 / 2,
              ray_pos := [50, 124], ray_facing := [0, 1]\<rparr>,
          [ray0\<lparr>collided := True, ray_strength := 89, ray_interest := 1 / 2,
              ray_pos := [50, 124], ray_facing := [0, 1]\<rparr>])"
proof -
  have d: "ray0\<lparr>ray_strength := ray_strength ray0 - RAY_DECAY\<rparr> = ray0\<lparr>ray_strength := 99\<rparr>"
    by (simp add: ray0_def RAY_DECAY_def)
  show ?thesis
    unfolding Ray_update_def d
    by (simp add: ray0_collision list_store_def vec2 RAY_SPEED_def Let_def)
qed

text \<open>
  C8 as the claim states it fails at \<open>ray0\<close> and \<open>wall0\<close>: the Ray collides with the wall,
  the closest edge is the bottom edge, and the update leaves the Y component of the
  facing at 1, which is not negative.
\<close>

theorem Ray_bottom_edge_not_negative:
  "Ray_get_rect ray0 = Inr \<lparr>rect_left = 46, rect_top = 108, rect_w = 8, rect_h = 8\<rparr> \<and>
   collidelist \<lparr>rect_left = 46, rect_top = 108, rect_w = 8, rect_h = 8\<rparr> [wall0] = Some 0 \<and>
   close_edge [50, 116] (wall_rect wall0) = Inr 3 \<and>
   Ray_test_collision [wall0] ray0 =
     Inr (ray0\<lparr>collided := True, ray_strength := 90, ray_interest := 1 / 2,
              ray_pos := [50, 116], ray_facing := [0, 1]\<rparr>) \<and>
   Ray_update [wall0] ray0 [ray0] =
     Inr (ray0\<lparr>collided := True, ray_strength := 89, ray_interest := 1 / 2,
              ray_pos := [50, 124], ray_facing := [0, 1]\<rparr>,
          [ray0\<lparr>collided := True, ray_strength := 89, ray_interest := 1 / 2,
              ray_pos := [50, 124], ray_facing := [0, 1]\<rparr>]) \<and>
   \<not> ray_facing (ray0\<lparr>collided := True, ray_strength := 89, ray_interest := 1 / 2,
              ray_pos := [50, 124], ray_facing := [0, 1]\<rparr>) ! 1 < 0"
proof -
  have "Ray_test_collision [wall0] ray0 =
     Inr (ray0\<lparr>collided := True, ray_strength := 90, ray_interest := 1 / 2,
              ray_pos := [50, 116], ray_facing := [0, 1]\<rparr>)"
    using ray0_collision [of "ray_strength ray0"] by (simp add: ray0_def)
  with ray0_rect ray0_hits ray0_edge ray0_update show ?thesis
    by simp
qed

section \<open>Collision of a Bat\<close>

lemma Bat_test_collision_none:
  assumes "Bat_get_rect self = Inr own" "collidelist own walls = None"
  shows "Bat_test_collision walls self = Inr self"
  using assms by (simp add: Bat_test_collision_def)

lemma Bat_test_collision_pass:
  assumes "Bat_get_rect self = Inr own" "collidelist own walls = Some i" "\<not> collides_bat (walls ! i)"
  shows "Bat_test_collision walls self = Inr self"
  using assms by (simp add: Bat_test_collision_def)

lemma Bat_test_collision_block:
  assumes own: "Bat_get_rect self = Inr own"
    and hit: "collidelist own walls = Some i"
    and blocks: "collides_bat (walls ! i)"
    and step: "sdiv (bat_vel self) 60 = Inr step"
    and edge: "close_edge (vsub (bat_pos self) step) (wall_rect (walls ! i)) = Inr e"
    and len: "vel_index e < length (bat_vel self)"
  shows "Bat_test_collision walls self =
     Inr (self\<lparr>bat_pos := vsub (bat_pos self) step,
              bat_vel := (bat_vel self)[vel_index e := positivity e * \<bar>bat_vel self ! vel_index e\<bar>]\<rparr>)"
  using own hit blocks step by (simp add: Bat_test_collision_def reflect_edge [OF edge len])

text \<open>The example: \<open>bat1\<close> after the position step of \<^verbatim>\<open>update\<close>, at (101, 100).\<close>

lemma bat1_rect:
  "Bat_get_rect (bat1\<lparr>bat_pos := [101, 100]\<rparr>) = Inr \<lparr>rect_left = 91, rect_top = 90, rect_w = 20, rect_h = 20\<rparr>"
  by (simp add: Bat_get_rect_def bat1_def vec2)

lemma bat1_hits:
  "collidelist \<lparr>rect_left = 91, rect_top = 90, rect_w = 20, rect_h = 20\<rparr> [glass, solid] = Some 0"
  "collidelist \<lparr>rect_left = 91, rect_top = 90, rect_w = 20, rect_h = 20\<rparr> [solid, glass] = Some 0"
  "collidelist \<lparr>rect_left = 91, rect_top = 90, rect_w = 20, rect_h = 20\<rparr> [solid] = Some 0"
  "colliderect \<lparr>rect_left = 91, rect_top = 90, rect_w = 20, rect_h = 20\<rparr> (wall_rect solid)"
  by (simp_all add: colliderect_def glass_def solid_def)

lemma bat1_masked: "Bat_test_collision [glass, solid] (bat1\<lparr>bat_pos := [101, 100]\<rparr>) = Inr (bat1\<lparr>bat_pos := [101, 100]\<rparr>)"
  by (rule Bat_test_collision_pass [OF bat1_rect bat1_hits(1)]) (simp add: glass_def)

lemma bat1_step: "sdiv (bat_vel (bat1\<lparr>bat_pos := [101, 100]\<rparr>)) 60 = Inr [1, 0]"
  by (simp add: bat1_def vec2)

lemma bat1_edge: "close_edge [100, 100] (wall_rect solid) = Inr 0"
  by (simp add: close_edge_def edge_lengths_def vec2 solid_def rect_right_def rect_bottom_def)

lemma bat1_bounce: "Bat_test_collision [solid] (bat1\<lparr>bat_pos := [101, 100]\<rparr>)
      = Inr (bat1\<lparr>bat_pos := [100, 100], bat_vel := [- 60, 0]\<rparr>)"
proof -
  have e: "close_edge (vsub (bat_pos (bat1\<lparr>bat_pos := [101, 100]\<rparr>)) [1, 0]) (wall_rect ([solid] ! 0)) = Inr 0"
    using bat1_edge by (simp add: vec2)
  have b: "collides_bat ([solid] ! 0)" by (simp add: solid_def)
  have l: "vel_index 0 < length (bat_vel (bat1\<lparr>bat_pos := [101, 100]\<rparr>))"
    by (simp add: vel_index_def bat1_def)
  show ?thesis
    unfolding Bat_test_collision_block [OF bat1_rect bat1_hits(3) b bat1_step e l]
    by (simp add: bat1_def vec2 vel_index_def positivity_def)
qed

lemma bat1_bounce2: "Bat_test_collision [solid, glass] (bat1\<lparr>bat_pos := [101, 100]\<rparr>)
      = Inr (bat1\<lparr>bat_pos := [100, 100], bat_vel := [- 60, 0]\<rparr>)"
proof -
  have e: "close_edge (vsub (bat_pos (bat1\<lparr>bat_pos := [101, 100]\<rparr>)) [1, 0]) (wall_rect ([solid, glass] ! 0)) = Inr 0"
    using bat1_edge by (simp add: vec2)
  have b: "collides_bat ([solid, glass] ! 0)" by (simp add: solid_def)
  have l: "vel_index 0 < length (bat_vel (bat1\<lparr>bat_pos := [101, 100]\<rparr>))"
    by (simp add: vel_index_def bat1_def)
  show ?thesis
    unfolding Bat_test_collision_block [OF bat1_rect bat1_hits(2) b bat1_step e l]
    by (simp add: bat1_def vec2 vel_index_def positivity_def)
qed

lemma bat1_update_masked: "Bat_update [glass, solid] bat1
      = Inr (bat1\<lparr>bat_pos := [101, 100], bat_vel := [600 / 11, 0]\<rparr>)"
proof -
  have s: "sdiv (bat_vel bat1) 60 = Inr [1, 0]" by (simp add: bat1_def vec2)
  have p: "bat1\<lparr>bat_pos := vadd (bat_pos bat1) [1, 0]\<rparr> = bat1\<lparr>bat_pos := [101, 100]\<rparr>"
    by (simp add: bat1_def vec2)
  show ?thesis
    unfolding Bat_update_def s ebind_Inr p bat1_masked
    by (simp add: bat1_def py_div_def rotate_pair vec2)
qed

lemma bat1_update_bounce: "Bat_update [solid] bat1
      = Inr (bat1\<lparr>bat_vel := [- 600 / 11, 0]\<rparr>)"
proof -
  have s: "sdiv (bat_vel bat1) 60 = Inr [1, 0]" by (simp add: bat1_def vec2)
  have p: "bat1\<lparr>bat_pos := vadd (bat_pos bat1) [1, 0]\<rparr> = bat1\<lparr>bat_pos := [101, 100]\<rparr>"
    by (simp add: bat1_def vec2)
  show ?thesis
    unfolding Bat_update_def s ebind_Inr p bat1_bounce
    by (simp add: bat1_def py_div_def rotate_pair vec2)
qed

text \<open>
  Where the first wall that collides with the Bat blocks Bats (or no wall collides),
  \<^verbatim>\<open>test_collision\<close> does what it would do on the blocking walls alone.
\<close>

lemma collidelist_None_filter:
  "collidelist own walls = None \<Longrightarrow> collidelist own (filter P walls) = None"
  by (induction walls) (auto split: if_splits)

lemma collidelist_Some_filter:
  "collidelist own walls = Some i \<Longrightarrow> collides_bat (walls ! i) \<Longrightarrow>
   \<exists>j. collidelist own (filter collides_bat walls) = Some j \<and>
       filter collides_bat walls ! j = walls ! i"
proof (induction walls arbitrary: i)
  case Nil
  then show ?case by simp
next
  case (Cons wl rest)
  show ?case
  proof (cases "colliderect own (wall_rect wl)")
    case True
    with Cons.prems show ?thesis by auto
  next
    case False
    with Cons.prems obtain k where k: "collidelist own rest = Some k" "i = Suc k"
      by auto
    with Cons.prems have "collides_bat (rest ! k)" by simp
    from Cons.IH [OF k(1) this] obtain j where
      j: "collidelist own (filter collides_bat rest) = Some j" "filter collides_bat rest ! j = rest ! k"
      by blast
    with False k show ?thesis by auto
  qed
qed

lemma Bat_test_collision_unmasked:
  assumes own: "Bat_get_rect self = Inr own"
    and first: "\<And>i. collidelist own walls = Some i \<Longrightarrow> collides_bat (walls ! i)"
  shows "Bat_test_collision walls self = Bat_test_collision (filter collides_bat walls) self"
proof (cases "collidelist own walls")
  case None
  then show ?thesis
    using own by (simp add: Bat_test_collision_def collidelist_None_filter)
next
  case (Some i)
  with first have b: "collides_bat (walls ! i)" by simp
  from collidelist_Some_filter [OF Some b] obtain j where
    j: "collidelist own (filter collides_bat walls) = Some j" "filter collides_bat walls ! j = walls ! i"
    by blast
  then show ?thesis
    using own Some b by (simp add: Bat_test_collision_def)
qed

text \<open>
  C1 (the code does not do what the claim says). \<open>bat1\<close> moves to the right into the
  blocking wall \<open>solid\<close>, and its box also overlaps the wall \<open>glass\<close>, which does not
  block Bats. With \<open>solid\<close> alone, or with \<open>solid\<close> before \<open>glass\<close> in the list, the Bat
  undoes its step and its velocity is reflected. With \<open>glass\<close> before \<open>solid\<close>, the
  collision test finds \<open>glass\<close> first and \<^verbatim>\<open>test_collision\<close> changes nothing: the Bat keeps
  moving into \<open>solid\<close>.
\<close>

theorem Bat_collision_masked:
  "\<not> collides_bat glass \<and> collides_bat solid \<and>
   Bat_get_rect (bat1\<lparr>bat_pos := [101, 100]\<rparr>)
     = Inr \<lparr>rect_left = 91, rect_top = 90, rect_w = 20, rect_h = 20\<rparr> \<and>
   colliderect \<lparr>rect_left = 91, rect_top = 90, rect_w = 20, rect_h = 20\<rparr> (wall_rect solid) \<and>
   Bat_test_collision [solid] (bat1\<lparr>bat_pos := [101, 100]\<rparr>)
     = Inr (bat1\<lparr>bat_pos := [100, 100], bat_vel := [- 60, 0]\<rparr>) \<and>
   Bat_test_collision [solid, glass] (bat1\<lparr>bat_pos := [101, 100]\<rparr>)
     = Inr (bat1\<lparr>bat_pos := [100, 100], bat_vel := [- 60, 0]\<rparr>) \<and>
   Bat_test_collision [glass, solid] (bat1\<lparr>bat_pos := [101, 100]\<rparr>)
     = Inr (bat1\<lparr>bat_pos := [101, 100]\<rparr>) \<and>
   Bat_update [solid] bat1 = Inr (bat1\<lparr>bat_vel := [- 600 / 11, 0]\<rparr>) \<and>
   Bat_update [glass, solid] bat1 = Inr (bat1\<lparr>bat_pos := [101, 100], bat_vel := [600 / 11, 0]\<rparr>)"
proof -
  have g: "\<not> collides_bat glass" and s: "collides_bat solid"
    by (simp_all add: glass_def solid_def)
  from g s bat1_rect bat1_hits(4) bat1_bounce bat1_bounce2 bat1_masked
       bat1_update_bounce bat1_update_masked
  show ?thesis by simp
qed

section \<open>Emission\<close>

lemma Ray_new: "Ray fresh pos angle = Inr (new_ray fresh pos angle)"
  by (simp add: Ray_def Vector_def rotate_pair new_ray_def RAY_STRENGTH_def RAY_RADIUS_def)

lemma emit_angle_eq:
  "argument (bat_facing self) = Inr a \<Longrightarrow>
   emit_angle self i = Inr (a - 5 * pi / 8 + 5 * pi / 128 * of_nat i)"
  by (simp add: emit_angle_def EMISSION_ANGLE_def RAYS_PER_EMIT_def)

lemma emit_loop_eq:
  assumes "argument (bat_facing self) = Inr a"
  shows "emit_loop is fresh self =
     Inr (self\<lparr>rays := rays self @
        map (\<lambda>(k, i). new_ray (fresh + k) (bat_pos self) (a - 5 * pi / 8 + 5 * pi / 128 * of_nat i))
          (zip [0 ..< length is] is)\<rparr>)"
proof -
  define ang where "ang i = a - 5 * pi / 8 + 5 * pi / 128 * of_nat i" for i :: nat
  have "emit_loop is fresh self =
     Inr (self\<lparr>rays := rays self @
        map (\<lambda>(k, i). new_ray (fresh + k) (bat_pos self) (ang i)) (zip [0 ..< length is] is)\<rparr>)"
    using assms
  proof (induction "is" arbitrary: fresh self)
    case Nil
    then show ?case by simp
  next
    case (Cons i rest)
    let ?s = "self\<lparr>rays := rays self @ [new_ray fresh (bat_pos self) (ang i)]\<rparr>"
    have f: "argument (bat_facing ?s) = Inr a"
      using Cons.prems by simp
    have z: "zip [0 ..< length (i # rest)] (i # rest) =
               (0, i) # map (\<lambda>(k, j). (Suc k, j)) (zip [0 ..< length rest] rest)"
      by (simp add: upt_conv_Cons map_Suc_upt [symmetric] zip_map1 del: upt_Suc)
    have "emit_loop (i # rest) fresh self = emit_loop rest (Suc fresh) ?s"
      by (simp add: emit_angle_eq [OF Cons.prems] Ray_new ang_def)
    also note Cons.IH [OF f]
    finally show ?case
      unfolding z by (simp add: case_prod_unfold comp_def)
  qed
  then show ?thesis by (simp add: ang_def)
qed

lemma emit_eq:
  assumes "argument (bat_facing self) = Inr a"
  shows "emit fresh self =
     Inr (self\<lparr>rays := rays self @
        map (\<lambda>i. new_ray (fresh + i) (bat_pos self) (a - 5 * pi / 8 + 5 * pi / 128 * of_nat i))
          [0 ..< 32]\<rparr>)"
proof -
  have "zip [0 ..< length [0 ..< 32]] [0 ..< 32] = map (\<lambda>i. (i, i)) [0 ..< 32]"
    by (simp add: zip_same_conv_map)
  then show ?thesis
    unfolding emit_def RAYS_PER_EMIT_def emit_loop_eq [OF assms]
    by (simp add: comp_def del: upt_Suc)
qed

lemma argument_unit_x: "argument [1, 0] = Inr 0"
  by (simp add: argument_def norm_v_def dot_unit_x py_div_def acos_def getitem_def)

text \<open>
  For every Bat whose facing has an argument \<open>a\<close>, the angles of the Rays lie between
  \<open>a - 5\<pi>/8\<close> and \<open>a + 75\<pi>/128\<close>.
\<close>

lemma emit_angle_bounds:
  assumes "argument (bat_facing self) = Inr a" "i < RAYS_PER_EMIT"
  shows "\<exists>t. emit_angle self i = Inr t \<and> a - 5 * pi / 8 \<le> t \<and> t \<le> a + 75 * pi / 128"
proof -
  have "real i \<le> 31"
    using assms(2) by (simp add: RAYS_PER_EMIT_def)
  then have "5 * pi / 128 * real i \<le> 5 * pi / 128 * 31"
    by (intro mult_left_mono) simp_all
  moreover have "0 \<le> 5 * pi / 128 * real i"
    by simp
  ultimately show ?thesis
    by (simp add: emit_angle_eq [OF assms(1)])
qed

lemma last_heading_differs: "cos (75 * pi / 128) \<noteq> cos (5 * pi / 8)"
proof
  assume eq: "cos (75 * pi / 128) = cos (5 * pi / 8)"
  have b1: "0 \<le> 75 * pi / 128" and b2: "75 * pi / 128 \<le> pi"
    and b3: "0 \<le> 5 * pi / 8" and b4: "5 * pi / 8 \<le> pi"
    using pi_gt_zero by simp_all
  have "75 * pi / 128 = 5 * pi / 8"
    by (rule cos_inj_pi [OF b1 b2 b3 b4 eq])
  then show False
    using pi_gt_zero by simp
qed

lemma bat2_argument: "argument (bat_facing bat2) = Inr 0"
  by (simp add: bat2_def argument_unit_x)

lemma bat2_emit:
  "emit 0 bat2 = Inr (bat2\<lparr>rays := map (\<lambda>i. new_ray i [100, 100] (- (5 * pi / 8) + 5 * pi / 128 * of_nat i)) [0 ..< 32]\<rparr>)"
  unfolding emit_eq [OF bat2_argument] by (simp add: bat2_def del: upt_Suc)

lemma bat2_last:
  "ray_facing (map (\<lambda>i. new_ray i [100, 100] (- (5 * pi / 8) + 5 * pi / 128 * of_nat i)) [0 ..< 32] ! 31)
     = [cos (75 * pi / 128), sin (75 * pi / 128)]"
proof -
  have "- (5 * pi / 8) + 5 * pi / 128 * of_nat 31 = 75 * pi / 128"
    by simp
  then show ?thesis
    by (simp add: new_ray_def del: upt_Suc)
qed

text \<open>
  C2 (the code does not do what the claim says). \<open>bat2\<close> is at (100, 100) and faces 0
  radians. \<^verbatim>\<open>emit\<close> appends 32 Rays; the angle of the first is \<open>-5\<pi>/8\<close>, the angle of
  the last is \<open>75\<pi>/128\<close>, which is less than \<open>5\<pi>/8\<close>, and the facing of the last Ray is
  not the direction \<open>5\<pi>/8\<close>. The fan is not centred on the facing of the Bat.
\<close>

theorem emit_fan_not_centred:
  "argument (bat_facing bat2) = Inr 0 \<and>
   emit 0 bat2 =
     Inr (bat2\<lparr>rays := map (\<lambda>i. new_ray i [100, 100] (- (5 * pi / 8) + 5 * pi / 128 * of_nat i)) [0 ..< 32]\<rparr>) \<and>
   length (map (\<lambda>i. new_ray i [100, 100] (- (5 * pi / 8) + 5 * pi / 128 * of_nat i)) [0 ..< 32]) = 32 \<and>
   emit_angle bat2 0 = Inr (- (5 * pi / 8)) \<and>
   emit_angle bat2 31 = Inr (75 * pi / 128) \<and>
   75 * pi / 128 < 5 * pi / 8 \<and>
   ray_facing (map (\<lambda>i. new_ray i [100, 100] (- (5 * pi / 8) + 5 * pi / 128 * of_nat i)) [0 ..< 32] ! 31)
     = [cos (75 * pi / 128), sin (75 * pi / 128)] \<and>
   [cos (75 * pi / 128), sin (75 * pi / 128)] \<noteq> [cos (5 * pi / 8), sin (5 * pi / 8)]"
proof -
  have a0: "emit_angle bat2 0 = Inr (- (5 * pi / 8))"
    by (simp add: emit_angle_eq [OF bat2_argument])
  have a31: "emit_angle bat2 31 = Inr (75 * pi / 128)"
    by (simp add: emit_angle_eq [OF bat2_argument])
  have lt: "75 * pi / 128 < 5 * pi / 8"
    using pi_gt_zero by simp
  show ?thesis
    using bat2_argument bat2_emit a0 a31 lt bat2_last last_heading_differs
    by (simp del: upt_Suc)
qed

section \<open>The aggregate of the Beams\<close>

lemma beam_term2:
  assumes "length (beam_rel b) = 2"
  shows "beam_term b = Inr [beam_strength b / RAY_STRENGTH * (beam_rel b ! 0) * beam_interest b,
                            beam_strength b / RAY_STRENGTH * (beam_rel b ! 1) * beam_interest b]"
proof -
  from assms obtain x y where xy: "beam_rel b = [x, y]"
    by (rule length2_pair)
  show ?thesis
    by (simp add: beam_term_def py_div_def RAY_STRENGTH_def xy vec2)
qed

lemma average_loop_sum:
  assumes "\<forall>b \<in> set bs. length (beam_rel b) = 2"
  shows "average_loop bs [x, y] =
     Inr [x + (\<Sum>b\<leftarrow>bs. beam_strength b / RAY_STRENGTH * (beam_rel b ! 0) * beam_interest b),
          y + (\<Sum>b\<leftarrow>bs. beam_strength b / RAY_STRENGTH * (beam_rel b ! 1) * beam_interest b)]"
  using assms
proof (induction bs arbitrary: x y)
  case Nil
  show ?case by simp
next
  case (Cons b bs)
  then have b: "length (beam_rel b) = 2" and bs: "\<forall>b \<in> set bs. length (beam_rel b) = 2"
    by simp_all
  show ?case
    by (simp add: beam_term2 [OF b] vec2 Cons.IH [OF bs] add.assoc)
qed

text \<open>
  C7. For every Bat whose Beams have directions of two components, \<^verbatim>\<open>get_average_beam\<close>
  returns the vector whose X and Y components are the sums, over the Beams of the Bat,
  of \<open>strength / RAY_STRENGTH * direction * interest\<close>; and for a Bat with no Beam it
  returns the zero vector.
\<close>

theorem get_average_beam_sum:
  "((\<forall>b \<in> set (beams self). length (beam_rel b) = 2) \<longrightarrow>
      get_average_beam self =
        Inr [\<Sum>b\<leftarrow>beams self. beam_strength b / RAY_STRENGTH * (beam_rel b ! 0) * beam_interest b,
             \<Sum>b\<leftarrow>beams self. beam_strength b / RAY_STRENGTH * (beam_rel b ! 1) * beam_interest b]) \<and>
   (beams self = [] \<longrightarrow> get_average_beam self = Inr [0, 0])"
proof -
  have v: "Vector [] = [0, 0]"
    by (simp add: Vector_def)
  show ?thesis
    by (auto simp: get_average_beam_def v average_loop_sum)
qed

theorem get_average_beam_sum_witness:
  "length (beam_rel beam1) = 2 \<and> length (beam_rel beam2) = 2 \<and>
   get_average_beam (bat2\<lparr>beams := [beam1, beam2]\<rparr>) = Inr [1 / 4, - 1 / 4] \<and>
   get_average_beam bat2 = Inr [0, 0]"
proof -
  have l: "\<forall>b \<in> set (beams (bat2\<lparr>beams := [beam1, beam2]\<rparr>)). length (beam_rel b) = 2"
    by (simp add: beam1_def beam2_def)
  have e: "beams bat2 = []"
    by (simp add: bat2_def)
  from get_average_beam_sum [of "bat2\<lparr>beams := [beam1, beam2]\<rparr>"] l
  have "get_average_beam (bat2\<lparr>beams := [beam1, beam2]\<rparr>) = Inr [1 / 4, - 1 / 4]"
    by (simp add: beam1_def beam2_def RAY_STRENGTH_def)
  moreover from get_average_beam_sum [of bat2] e have "get_average_beam bat2 = Inr [0, 0]"
    by blast
  ultimately show ?thesis
    by (simp add: beam1_def beam2_def)
qed

section \<open>Steering\<close>

lemma py_mod_range:
  assumes "0 < b"
  shows "\<exists>m k. py_mod a b = Inr m \<and> 0 \<le> m \<and> m < b \<and> m = a + b * of_int k"
proof -
  let ?k = "\<lfloor>a / b\<rfloor>"
  let ?m = "a - b * of_int ?k"
  have lo: "of_int ?k * b \<le> a"
    using assms by (rule floor_divide_lower)
  have hi: "a < (of_int ?k + 1) * b"
    using assms by (rule floor_divide_upper)
  have m0: "0 \<le> ?m"
    using lo by (simp add: mult.commute)
  have m1: "?m < b"
    using hi by (simp add: algebra_simps)
  have m2: "?m = a + b * of_int (- ?k)"
    by simp
  have m3: "py_mod a b = Inr ?m"
    using assms by (simp add: py_mod_def)
  from m3 m0 m1 m2 show ?thesis
    by blast
qed

lemma nonzero2_pair: "nonzero2 [x, y] = Inr (x \<noteq> 0 \<or> y \<noteq> 0)"
  by (simp add: nonzero2_def vec2)

lemma norm_v_pair_zero: "norm_v [x, y] = 0 \<longleftrightarrow> x = 0 \<and> y = 0"
  by (simp add: norm_v_zero_iff)

lemma argument_pair_ok:
  assumes "norm_v [x, y] \<noteq> 0"
  shows "\<exists>t. argument [x, y] = Inr t \<and> 0 \<le> t \<and> t < 2 * pi"
  using argument_range [OF assms] by blast

text \<open>
  C3. \<^verbatim>\<open>AUTO_CONTROLLED\<close> is set, so every Bat is steered. For a Bat with a facing that is
  not zero (facing, velocity and aggregate are vectors of the plane), the steering
  succeeds; it adds \<open>(20 * |aggregate| + DEFAULT_SPEED) * facing\<close> to the velocity and
  changes nothing but the velocity and the angular velocity. When the aggregate is not
  zero, the angular velocity decreases by the angle \<open>(arg facing - arg aggregate) mod 2\<pi>\<close>
  of \<^verbatim>\<open>angle_to\<close>, less \<open>2\<pi>\<close> when it exceeds \<open>\<pi>\<close>, a turn in \<open>(-\<pi>, \<pi>]\<close>. When the
  aggregate is zero, the angular velocity increases by \<open>\<pi>\<close>.
\<close>

theorem steer_policy:
  assumes f2: "length (bat_facing self) = 2" and fnz: "norm_v (bat_facing self) \<noteq> 0"
    and a2: "length average_beam = 2" and v2: "length (bat_vel self) = 2"
  shows "\<exists>s. steer is_first self average_beam = Inr s \<and>
           bat_vel s =
             [bat_vel self ! 0 + (20 * norm_v average_beam + DEFAULT_SPEED) * (bat_facing self ! 0),
              bat_vel self ! 1 + (20 * norm_v average_beam + DEFAULT_SPEED) * (bat_facing self ! 1)] \<and>
           s\<lparr>bat_vel := bat_vel self, ang_vel := ang_vel self\<rparr> = self \<and>
           (norm_v average_beam \<noteq> 0 \<longrightarrow>
              (\<exists>angle f a k. angle_to (bat_facing self) average_beam = Inr angle \<and>
                 argument (bat_facing self) = Inr f \<and> argument average_beam = Inr a \<and>
                 angle = f - a + 2 * pi * of_int k \<and> 0 \<le> angle \<and> angle < 2 * pi \<and>
                 ang_vel s = ang_vel self - (if pi < angle then angle - 2 * pi else angle) \<and>
                 - pi < (if pi < angle then angle - 2 * pi else angle) \<and>
                 (if pi < angle then angle - 2 * pi else angle) \<le> pi)) \<and>
           (norm_v average_beam = 0 \<longrightarrow> ang_vel s = ang_vel self + pi)"
proof -
  from f2 obtain fx fy where f: "bat_facing self = [fx, fy]" by (rule length2_pair)
  from a2 obtain ax ay where a: "average_beam = [ax, ay]" by (rule length2_pair)
  from v2 obtain vx vy where v: "bat_vel self = [vx, vy]" by (rule length2_pair)
  define g where "g = 20 * norm_v average_beam + DEFAULT_SPEED"
  define s1 where "s1 = self\<lparr>bat_vel := [vx + fx * g, vy + fy * g]\<rparr>"
  have auto_on: "\<not> is_first \<or> AUTO_CONTROLLED"
    by (simp add: AUTO_CONTROLLED_def)
  have vel: "vadd (bat_vel self) (smul (bat_facing self) (20 * norm_v average_beam + DEFAULT_SPEED))
             = [vx + fx * g, vy + fy * g]"
    by (simp add: f v vec2 g_def)
  show ?thesis
  proof (cases "norm_v average_beam = 0")
    case True
    then have z: "ax = 0 \<and> ay = 0"
      by (simp add: a norm_v_pair_zero)
    have "steer is_first self average_beam = Inr (s1\<lparr>ang_vel := ang_vel s1 + pi\<rparr>)"
      using auto_on z unfolding steer_def vel
      by (simp add: Let_def a nonzero2_pair s1_def)
    moreover have "bat_vel (s1\<lparr>ang_vel := ang_vel s1 + pi\<rparr>) =
             [bat_vel self ! 0 + (20 * norm_v average_beam + DEFAULT_SPEED) * (bat_facing self ! 0),
              bat_vel self ! 1 + (20 * norm_v average_beam + DEFAULT_SPEED) * (bat_facing self ! 1)]"
      by (simp add: s1_def f v g_def mult.commute)
    moreover have "(s1\<lparr>ang_vel := ang_vel s1 + pi\<rparr>)\<lparr>bat_vel := bat_vel self, ang_vel := ang_vel self\<rparr> = self"
      by (simp add: s1_def)
    moreover have "ang_vel (s1\<lparr>ang_vel := ang_vel s1 + pi\<rparr>) = ang_vel self + pi"
      by (simp add: s1_def)
    ultimately show ?thesis
      using True by blast
  next
    case False
    then have nz: "ax \<noteq> 0 \<or> ay \<noteq> 0"
      by (simp add: a norm_v_pair_zero)
    from argument_pair_ok [of fx fy] fnz f obtain tf where
      tf: "argument (bat_facing self) = Inr tf" by auto
    from argument_pair_ok [of ax ay] False a obtain ta where
      ta: "argument average_beam = Inr ta" by auto
    have pos: "0 < 2 * pi" by simp
    from py_mod_range [OF pos, of "tf - ta"] obtain m k where
      m: "py_mod (tf - ta) (2 * pi) = Inr m" "0 \<le> m" "m < 2 * pi" "m = tf - ta + 2 * pi * of_int k"
      by blast
    have ang: "angle_to (bat_facing self) average_beam = Inr m"
      by (simp add: angle_to_def tf ta m(1))
    have ang1: "angle_to (bat_facing s1) average_beam = Inr m"
      using ang by (simp add: s1_def)
    have st: "steer is_first self average_beam =
            Inr (s1\<lparr>ang_vel := ang_vel s1 - (if pi < m then m - pi * 2 else m)\<rparr>)"
      using auto_on nz unfolding steer_def vel
      by (simp add: Let_def a [symmetric] nonzero2_pair [of ax ay, folded a] s1_def [symmetric] ang1)
    have t_eq: "(if pi < m then m - pi * 2 else m) = (if pi < m then m - 2 * pi else m)"
      by simp
    have lo: "- pi < (if pi < m then m - 2 * pi else m)"
    proof (cases "pi < m")
      case True
      then show ?thesis by simp
    next
      case False
      have "- pi < 0" using pi_gt_zero by simp
      with m(2) have "- pi < m" by linarith
      with False show ?thesis by simp
    qed
    have hi: "(if pi < m then m - 2 * pi else m) \<le> pi"
    proof (cases "pi < m")
      case True
      with m(3) show ?thesis by simp
    next
      case False
      then show ?thesis by simp
    qed
    let ?s = "s1\<lparr>ang_vel := ang_vel s1 - (if pi < m then m - 2 * pi else m)\<rparr>"
    have st': "steer is_first self average_beam = Inr ?s"
      using st unfolding t_eq .
    have v': "bat_vel ?s =
             [bat_vel self ! 0 + (20 * norm_v average_beam + DEFAULT_SPEED) * (bat_facing self ! 0),
              bat_vel self ! 1 + (20 * norm_v average_beam + DEFAULT_SPEED) * (bat_facing self ! 1)]"
      by (simp add: s1_def f v g_def mult.commute)
    have r': "?s\<lparr>bat_vel := bat_vel self, ang_vel := ang_vel self\<rparr> = self"
      by (simp add: s1_def)
    have av: "ang_vel ?s = ang_vel self - (if pi < m then m - 2 * pi else m)"
      by (simp add: s1_def)
    have inner: "\<exists>angle f a k. angle_to (bat_facing self) average_beam = Inr angle \<and>
                 argument (bat_facing self) = Inr f \<and> argument average_beam = Inr a \<and>
                 angle = f - a + 2 * pi * of_int k \<and> 0 \<le> angle \<and> angle < 2 * pi \<and>
                 ang_vel ?s = ang_vel self - (if pi < angle then angle - 2 * pi else angle) \<and>
                 - pi < (if pi < angle then angle - 2 * pi else angle) \<and>
                 (if pi < angle then angle - 2 * pi else angle) \<le> pi"
      using ang tf ta m(4) m(2) m(3) av lo hi by blast
    from st' v' r' inner False show ?thesis
      by blast
  qed
qed

lemma argument_unit_y: "argument [0, 1] = Inr (pi / 2)"
  by (simp add: argument_def norm_v_def dot_unit_x py_div_def acos_def getitem_def)

lemma angle_to_x_y: "angle_to [1, 0] [0, 1] = Inr (3 * pi / 2)"
proof -
  have "(0 - pi / 2) / (2 * pi) = - (1 / 4)"
    by simp
  then have "\<lfloor>(0 - pi / 2) / (2 * pi)\<rfloor> = - 1"
    by simp
  then have "py_mod (0 - pi / 2) (2 * pi) = Inr (3 * pi / 2)"
    unfolding py_mod_def by simp
  then show ?thesis
    by (simp add: angle_to_def argument_unit_x argument_unit_y)
qed

theorem steer_policy_witness:
  "length (bat_facing bat2) = 2 \<and> norm_v (bat_facing bat2) \<noteq> 0 \<and> length (bat_vel bat2) = 2 \<and>
   length [0, 1 :: real] = 2 \<and> norm_v [0, 1] \<noteq> 0 \<and> norm_v [0, 0] = 0 \<and>
   (\<exists>s. steer False bat2 [0, 0] = Inr s \<and> bat_vel s = [5, 0] \<and> ang_vel s = pi) \<and>
   (\<exists>s. steer False bat2 [0, 1] = Inr s \<and> bat_vel s = [25, 0] \<and> ang_vel s = pi / 2)"
proof -
  have f2: "length (bat_facing bat2) = 2" and fnz: "norm_v (bat_facing bat2) \<noteq> 0"
    and v2: "length (bat_vel bat2) = 2"
    by (simp_all add: bat2_def norm_v_def)
  have n1: "norm_v [0, 1] = 1" and n0: "norm_v [0, 0] = 0"
    by (simp_all add: norm_v_def)
  have l: "length [0, 1 :: real] = 2" "length [0, 0 :: real] = 2"
    by simp_all
  from steer_policy [OF f2 fnz l(2) v2, of False] n0
  obtain s0 where s0: "steer False bat2 [0, 0] = Inr s0"
      "bat_vel s0 = [bat_vel bat2 ! 0 + (20 * norm_v [0, 0] + DEFAULT_SPEED) * (bat_facing bat2 ! 0),
                     bat_vel bat2 ! 1 + (20 * norm_v [0, 0] + DEFAULT_SPEED) * (bat_facing bat2 ! 1)]"
      "ang_vel s0 = ang_vel bat2 + pi"
    by blast
  have A: "\<exists>s. steer False bat2 [0, 0] = Inr s \<and> bat_vel s = [5, 0] \<and> ang_vel s = pi"
    using s0 by (simp add: n0 bat2_def DEFAULT_SPEED_def)
  from steer_policy [OF f2 fnz l(1) v2, of False] n1
  obtain s1 angle where s1: "steer False bat2 [0, 1] = Inr s1"
      "bat_vel s1 = [bat_vel bat2 ! 0 + (20 * norm_v [0, 1] + DEFAULT_SPEED) * (bat_facing bat2 ! 0),
                     bat_vel bat2 ! 1 + (20 * norm_v [0, 1] + DEFAULT_SPEED) * (bat_facing bat2 ! 1)]"
      "angle_to (bat_facing bat2) [0, 1] = Inr angle"
      "ang_vel s1 = ang_vel bat2 - (if pi < angle then angle - 2 * pi else angle)"
    by auto
  from s1(3) have "angle = 3 * pi / 2"
    by (simp add: bat2_def angle_to_x_y)
  then have "ang_vel s1 = pi / 2"
    using s1(4) pi_gt_zero by (simp add: bat2_def)
  then have B: "\<exists>s. steer False bat2 [0, 1] = Inr s \<and> bat_vel s = [25, 0] \<and> ang_vel s = pi / 2"
    using s1(1) s1(2) by (simp add: n1 bat2_def DEFAULT_SPEED_def)
  from f2 fnz v2 n1 n0 A B show ?thesis
    by simp
qed

section \<open>Returning Rays\<close>

lemma overlaps_beams [simp]: "overlaps (self\<lparr>beams := b\<rparr>) r = overlaps self r"
  by (simp add: overlaps_def Bat_get_rect_def)

lemma returning_beams [simp]: "returning (self\<lparr>beams := b\<rparr>) r = returning self r"
  by (simp add: returning_def)

lemma mark_exited_beams [simp]: "mark_exited (self\<lparr>beams := b\<rparr>) r = mark_exited self r"
  by (simp add: mark_exited_def)

lemma echo_of_beams [simp]: "echo_of (self\<lparr>beams := b\<rparr>) r = echo_of self r"
  by (simp add: echo_of_def)

lemma ident_mark_exited [simp]: "ident (mark_exited self r) = ident r"
  by (simp add: mark_exited_def)

lemma test_ray_eq:
  assumes p: "length (bat_pos self) = 2" and rp: "length (ray_pos r) = 2"
    and rf: "length (ray_facing r) = 2"
  shows "test_ray self r removed_rays =
     Inr (self\<lparr>beams := beams self @
                 (if returning self r \<and> ray_facing r \<noteq> [0, 0] then [echo_of self r] else [])\<rparr>,
          mark_exited self r,
          removed_rays @ (if returning self r then [r] else []))"
proof -
  from p obtain px py where bp: "bat_pos self = [px, py]" by (rule length2_pair)
  from rp obtain qx qy where rq: "ray_pos r = [qx, qy]" by (rule length2_pair)
  from rf obtain fx fy where f: "ray_facing r = [fx, fy]" by (rule length2_pair)
  obtain own where own: "Bat_get_rect self = Inr own"
    by (simp add: Bat_get_rect_def bp vec2)
  obtain other where other: "get_rect (ray_pos r) (ray_radius r) = Inr other"
    by (simp add: rq vec2)
  have ov: "overlaps self r = colliderect own other"
    by (simp add: overlaps_def own Ray_get_rect_def other)
  have d: "smul [fx, fy] (- 1) = [- fx, - fy]"
    by (simp add: vec2)
  have nz: "nonzero2 [- fx, - fy] = Inr (fx \<noteq> 0 \<or> fy \<noteq> 0)"
    by (simp add: nonzero2_def vec2)
  have nrm: "normalize [- fx, - fy] = Inr (map (\<lambda>c. c / norm_v [- fx, - fy]) [- fx, - fy])"
    if "fx \<noteq> 0 \<or> fy \<noteq> 0"
  proof -
    from that have "norm_v [- fx, - fy] \<noteq> 0"
      by (simp add: norm_v_zero_iff)
    then show ?thesis by (rule normalize_nonzero)
  qed
  show ?thesis
  proof (cases "colliderect own other")
    case False
    then show ?thesis
      unfolding test_ray_def own other
      by (simp add: ov returning_def mark_exited_def)
  next
    case True
    show ?thesis
    proof (cases "collided r \<and> exited_bat r")
      case False
      with True show ?thesis
        unfolding test_ray_def own other
        by (auto simp: ov returning_def mark_exited_def)
    next
      case ce: True
      show ?thesis
      proof (cases "fx \<noteq> 0 \<or> fy \<noteq> 0")
        case True
        with \<open>colliderect own other\<close> ce nrm [OF True] show ?thesis
          unfolding test_ray_def own other
          by (simp add: ov returning_def mark_exited_def d nz Let_def echo_of_def f)
      next
        case False
        with \<open>colliderect own other\<close> ce show ?thesis
          unfolding test_ray_def own other
          by (simp add: ov returning_def mark_exited_def Let_def f vec2 nonzero2_def)
      qed
    qed
  qed
qed

lemma test_rays_loop_eq:
  assumes p: "length (bat_pos self) = 2"
    and rs: "\<forall>r \<in> set rs. length (ray_pos r) = 2 \<and> length (ray_facing r) = 2"
  shows "test_rays_loop self rs removed_rays =
     Inr (self\<lparr>beams := beams self @
                 map (echo_of self) (filter (\<lambda>r. returning self r \<and> ray_facing r \<noteq> [0, 0]) rs)\<rparr>,
          map (mark_exited self) rs,
          removed_rays @ filter (returning self) rs)"
  using assms
proof (induction rs arbitrary: self removed_rays)
  case Nil
  then show ?case by simp
next
  case (Cons r rest)
  then have r: "length (ray_pos r) = 2" "length (ray_facing r) = 2"
    and rest: "\<forall>r \<in> set rest. length (ray_pos r) = 2 \<and> length (ray_facing r) = 2"
    by simp_all
  let ?s1 = "self\<lparr>beams := beams self @
                 (if returning self r \<and> ray_facing r \<noteq> [0, 0] then [echo_of self r] else [])\<rparr>"
  have p1: "length (bat_pos ?s1) = 2"
    using Cons.prems(1) by simp
  show ?case
    by (simp add: test_ray_eq [OF Cons.prems(1) r] Cons.IH [OF p1 rest])
qed

lemma list_remove_distinct:
  assumes "distinct (map ident ys)" "ident x \<in> ident ` set ys"
  shows "list_remove x ys = Inr (filter (\<lambda>y. ident y \<noteq> ident x) ys)"
  using assms
proof (induction ys)
  case Nil
  then show ?case by simp
next
  case (Cons y ys)
  show ?case
  proof (cases "ident y = ident x")
    case True
    with Cons.prems(1) have "ident x \<notin> ident ` set ys"
      by simp
    then have "\<forall>z \<in> set ys. ident z \<noteq> ident x"
      by (metis imageI)
    then have "filter (\<lambda>y. ident y \<noteq> ident x) ys = ys"
      by (simp add: filter_id_conv)
    with True show ?thesis by simp
  next
    case False
    with Cons.prems have "distinct (map ident ys)" "ident x \<in> ident ` set ys"
      by auto
    from Cons.IH [OF this] False show ?thesis by simp
  qed
qed

lemma remove_rays_distinct:
  assumes "distinct (map ident ys)" "distinct (map ident removed)"
    and "ident ` set removed \<subseteq> ident ` set ys"
  shows "remove_rays removed ys = Inr (filter (\<lambda>y. ident y \<notin> ident ` set removed) ys)"
  using assms
proof (induction removed arbitrary: ys)
  case Nil
  then show ?case by simp
next
  case (Cons x rest)
  let ?ys1 = "filter (\<lambda>y. ident y \<noteq> ident x) ys"
  have x: "ident x \<in> ident ` set ys"
    using Cons.prems(3) by simp
  have rm: "list_remove x ys = Inr ?ys1"
    using Cons.prems(1) x by (rule list_remove_distinct)
  have d1: "distinct (map ident ?ys1)"
    using Cons.prems(1) by (rule distinct_map_filter)
  have d2: "distinct (map ident rest)"
    using Cons.prems(2) by simp
  have sub: "ident ` set rest \<subseteq> ident ` set ?ys1"
  proof
    fix i assume i: "i \<in> ident ` set rest"
    from Cons.prems(2) have "ident x \<notin> ident ` set rest" by simp
    with i have "i \<noteq> ident x" by metis
    moreover from i Cons.prems(3) have "i \<in> ident ` set ys" by auto
    ultimately show "i \<in> ident ` set ?ys1" by auto
  qed
  have "filter (\<lambda>y. ident y \<notin> ident ` set rest) ?ys1
          = filter (\<lambda>y. ident y \<notin> ident ` set (x # rest)) ys"
    by (simp add: conj_commute)
  with Cons.IH [OF d1 d2 sub] rm show ?case by simp
qed

lemma test_rays_eq:
  assumes p: "length (bat_pos self) = 2"
    and rs: "\<forall>r \<in> set rs. length (ray_pos r) = 2 \<and> length (ray_facing r) = 2"
    and d: "distinct (map ident rs)"
  shows "test_rays self rs =
     Inr (self\<lparr>beams := beams self @
                 map (echo_of self) (filter (\<lambda>r. returning self r \<and> ray_facing r \<noteq> [0, 0]) rs)\<rparr>,
          filter (\<lambda>y. ident y \<notin> ident ` set (filter (returning self) rs))
            (map (mark_exited self) rs))"
proof -
  have i: "map ident (map (mark_exited self) rs) = map ident rs"
    by (simp add: comp_def)
  have d1: "distinct (map ident (map (mark_exited self) rs))"
    using d by (simp only: i)
  have d2: "distinct (map ident (filter (returning self) rs))"
    using d by (rule distinct_map_filter)
  have "ident ` set (map (mark_exited self) rs) = ident ` set rs"
    by (simp add: image_image)
  then have sub: "ident ` set (filter (returning self) rs) \<subseteq> ident ` set (map (mark_exited self) rs)"
    by auto
  show ?thesis
    unfolding test_rays_def test_rays_loop_eq [OF p rs]
    by (simp add: remove_rays_distinct [OF d1 d2 sub])
qed

text \<open>
  C10. For a Bat and a list of Rays, all with positions and facings in the plane (the
  Rays are distinct objects), \<^verbatim>\<open>test_rays\<close> succeeds, and every returning Ray of the list
  (it overlaps the Bat, with \<^verbatim>\<open>collided\<close> and \<^verbatim>\<open>exited_bat\<close> set) is gone from the list
  afterwards, whatever its facing; every other Ray stays. A Beam is appended only for
  the returning Rays whose facing is not zero, so a returning Ray with a zero facing is
  removed and leaves no Beam.
\<close>

theorem test_rays_removes_returning:
  assumes p: "length (bat_pos self) = 2"
    and rs: "\<forall>r \<in> set rs. length (ray_pos r) = 2 \<and> length (ray_facing r) = 2"
    and d: "distinct (map ident rs)"
  shows "\<exists>self' rs'. test_rays self rs = Inr (self', rs') \<and>
     (\<forall>r \<in> set rs. returning self r \<longrightarrow> ident r \<notin> ident ` set rs') \<and>
     (\<forall>r \<in> set rs. \<not> returning self r \<longrightarrow> ident r \<in> ident ` set rs') \<and>
     beams self' = beams self @
       map (echo_of self) (filter (\<lambda>r. returning self r \<and> ray_facing r \<noteq> [0, 0]) rs)"
proof -
  let ?rs' = "filter (\<lambda>y. ident y \<notin> ident ` set (filter (returning self) rs))
            (map (mark_exited self) rs)"
  have inj: "inj_on ident (set rs)"
    using d by (simp add: distinct_map)
  have A: "ident r \<notin> ident ` set ?rs'" if r: "r \<in> set rs" and ret: "returning self r" for r
  proof
    assume "ident r \<in> ident ` set ?rs'"
    then obtain y where y: "y \<in> set ?rs'" "ident r = ident y"
      by (rule imageE)
    then have "ident y \<notin> ident ` set (filter (returning self) rs)"
      by simp
    moreover from r ret have "ident r \<in> ident ` set (filter (returning self) rs)"
      by simp
    ultimately show False
      using y(2) by simp
  qed
  have B: "ident r \<in> ident ` set ?rs'" if r: "r \<in> set rs" and n: "\<not> returning self r" for r
  proof -
    have "ident r \<notin> ident ` set (filter (returning self) rs)"
    proof
      assume "ident r \<in> ident ` set (filter (returning self) rs)"
      then obtain r' where r': "r' \<in> set rs" "returning self r'" "ident r = ident r'"
        by auto
      with inj r have "r = r'" by (auto dest: inj_onD)
      with r'(2) n show False by simp
    qed
    moreover have "mark_exited self r \<in> set (map (mark_exited self) rs)"
      using r by simp
    ultimately have "mark_exited self r \<in> set ?rs'"
      by simp
    then have "ident (mark_exited self r) \<in> ident ` set ?rs'"
      by (rule imageI)
    then show ?thesis by simp
  qed
  from A B show ?thesis
    unfolding test_rays_eq [OF p rs d] by simp
qed

lemma bat2_returning:
  "returning bat2 rayA" "returning bat2 rayB" "\<not> returning bat2 rayC"
  by (simp_all add: returning_def overlaps_def Bat_get_rect_def Ray_get_rect_def vec2 colliderect_def
        bat2_def rayA_def rayB_def rayC_def)

theorem test_rays_removes_returning_witness:
  "length (bat_pos bat2) = 2 \<and>
   length (ray_pos rayA) = 2 \<and> length (ray_facing rayA) = 2 \<and>
   length (ray_pos rayB) = 2 \<and> length (ray_facing rayB) = 2 \<and>
   length (ray_pos rayC) = 2 \<and> length (ray_facing rayC) = 2 \<and>
   distinct (map ident [rayA, rayB, rayC]) \<and>
   returning bat2 rayA \<and> ray_facing rayA = [0, 0] \<and>
   returning bat2 rayB \<and> \<not> returning bat2 rayC \<and>
   (\<exists>self' rs'. test_rays bat2 [rayA, rayB, rayC] = Inr (self', rs') \<and>
      ident rayA \<notin> ident ` set rs' \<and> ident rayB \<notin> ident ` set rs' \<and>
      ident rayC \<in> ident ` set rs' \<and>
      beams self' = beams bat2 @ [echo_of bat2 rayB])"
proof -
  have p: "length (bat_pos bat2) = 2"
    by (simp add: bat2_def)
  have l: "length (ray_pos rayA) = 2" "length (ray_facing rayA) = 2"
    "length (ray_pos rayB) = 2" "length (ray_facing rayB) = 2"
    "length (ray_pos rayC) = 2" "length (ray_facing rayC) = 2"
    by (simp_all add: rayA_def rayB_def rayC_def)
  then have rs: "\<forall>r \<in> set [rayA, rayB, rayC]. length (ray_pos r) = 2 \<and> length (ray_facing r) = 2"
    by simp
  have d: "distinct (map ident [rayA, rayB, rayC])"
    by (simp add: rayA_def rayB_def rayC_def)
  have z: "ray_facing rayA = [0, 0]" and nz: "ray_facing rayB \<noteq> [0, 0]"
    by (simp_all add: rayA_def rayB_def)
  from test_rays_removes_returning [OF p rs d] obtain self' rs' where
    t: "test_rays bat2 [rayA, rayB, rayC] = Inr (self', rs')"
      "\<forall>r \<in> set [rayA, rayB, rayC]. returning bat2 r \<longrightarrow> ident r \<notin> ident ` set rs'"
      "\<forall>r \<in> set [rayA, rayB, rayC]. \<not> returning bat2 r \<longrightarrow> ident r \<in> ident ` set rs'"
      "beams self' = beams bat2 @ map (echo_of bat2)
         (filter (\<lambda>r. returning bat2 r \<and> ray_facing r \<noteq> [0, 0]) [rayA, rayB, rayC])"
    by blast
  from t(2) bat2_returning have a: "ident rayA \<notin> ident ` set rs'" "ident rayB \<notin> ident ` set rs'"
    by simp_all
  from t(3) bat2_returning have c: "ident rayC \<in> ident ` set rs'"
    by simp
  from t(4) bat2_returning z nz have b: "beams self' = beams bat2 @ [echo_of bat2 rayB]"
    by simp
  from t(1) a c b have "\<exists>self' rs'. test_rays bat2 [rayA, rayB, rayC] = Inr (self', rs') \<and>
      ident rayA \<notin> ident ` set rs' \<and> ident rayB \<notin> ident ` set rs' \<and>
      ident rayC \<in> ident ` set rs' \<and>
      beams self' = beams bat2 @ [echo_of bat2 rayB]"
    by blast
  with p l d z bat2_returning show ?thesis
    by blast
qed

section \<open>Decay and removal of a Ray\<close>

lemma fold_min_in_set: "fold min rest (a :: real) \<in> set (a # rest)"
proof (induction rest arbitrary: a)
  case Nil
  show ?case by simp
next
  case (Cons b rest)
  from Cons.IH [of "min b a"]
  have "fold min rest (min b a) = min b a \<or> fold min rest (min b a) \<in> set rest"
    by simp
  moreover have "min b a = a \<or> min b a = b"
    by linarith
  ultimately show ?case
    by auto
qed

lemma list_index_member:
  "m \<in> set xs \<Longrightarrow> \<exists>i. list_index xs m = Inr i \<and> i < length xs"
  by (induction xs) auto

lemma close_edge_ok:
  assumes "length pos = 2"
  shows "\<exists>e. close_edge pos r = Inr e \<and> e < 4"
proof -
  from assms obtain x y where p: "pos = [x, y]" by (rule length2_pair)
  let ?ls = "[\<bar>x - of_int (rect_left r)\<bar>, \<bar>x - of_int (rect_right r)\<bar>,
              \<bar>y - of_int (rect_top r)\<bar>, \<bar>y - of_int (rect_bottom r)\<bar>]"
  have e: "edge_lengths pos r = Inr ?ls"
    by (simp add: edge_lengths_def p vec2)
  obtain m where m: "py_min ?ls = Inr m" "m \<in> set ?ls"
    using fold_min_in_set [of "tl ?ls" "hd ?ls"] by simp
  from list_index_member [OF m(2)] obtain i where i: "list_index ?ls m = Inr i" "i < 4"
    by auto
  have "close_edge pos r = ebind (py_min ?ls) (\<lambda>m. list_index ?ls m)"
    unfolding close_edge_def e by (simp only: ebind_Inr)
  also have "\<dots> = list_index ?ls m"
    by (simp only: m(1) ebind_Inr)
  finally have "close_edge pos r = Inr i"
    by (simp only: i(1))
  with i(2) show ?thesis
    by blast
qed

lemma vel_index_le: "vel_index e < 2"
  by (simp add: vel_index_def)

lemma Ray_get_rect_ok:
  assumes "length (ray_pos r) = 2"
  shows "\<exists>own. Ray_get_rect r = Inr own"
proof -
  from assms obtain x y where "ray_pos r = [x, y]" by (rule length2_pair)
  then show ?thesis by (simp add: Ray_get_rect_def vec2)
qed

lemma Ray_test_collision_ok:
  assumes p: "length (ray_pos r) = 2" and f: "length (ray_facing r) = 2"
  shows "\<exists>s. Ray_test_collision walls r = Inr s \<and>
           length (ray_pos s) = 2 \<and> length (ray_facing s) = 2 \<and> ident s = ident r \<and>
           ray_strength s \<le> ray_strength r"
proof -
  from Ray_get_rect_ok [OF p] obtain own where own: "Ray_get_rect r = Inr own" ..
  show ?thesis
  proof (cases "collidelist own walls")
    case None
    with own p f show ?thesis
      by (simp add: Ray_test_collision_miss)
  next
    case (Some i)
    from p obtain x y where xy: "ray_pos r = [x, y]" by (rule length2_pair)
    from f obtain fx fy where fxy: "ray_facing r = [fx, fy]" by (rule length2_pair)
    have half: "sdiv (smul (ray_facing r) RAY_SPEED) 2 = Inr [fx * RAY_SPEED / 2, fy * RAY_SPEED / 2]"
      by (simp add: fxy vec2)
    have l: "length (vsub (ray_pos r) [fx * RAY_SPEED / 2, fy * RAY_SPEED / 2]) = 2"
      by (simp add: xy vec2)
    from close_edge_ok [OF l] obtain e where
      e: "close_edge (vsub (ray_pos r) [fx * RAY_SPEED / 2, fy * RAY_SPEED / 2]) (wall_rect (walls ! i)) = Inr e"
      by blast
    have v: "vel_index e < length (ray_facing r)"
      using vel_index_le [of e] f by simp
    show ?thesis
      unfolding Ray_test_collision_hit [OF own Some half e v]
      using l f by (simp add: WALL_DECAY_def)
  qed
qed

lemma find_ident:
  assumes "r \<in> set rs" "distinct (map ident rs)"
  shows "find (\<lambda>x. ident x = ident r) rs = Some r"
  using assms
proof (induction rs)
  case Nil
  then show ?case by simp
next
  case (Cons y rs)
  show ?case
  proof (cases "y = r")
    case True
    then show ?thesis by simp
  next
    case False
    with Cons.prems have r: "r \<in> set rs" and d: "distinct (map ident rs)"
      and "ident y \<notin> ident ` set rs"
      by auto
    then have "ident y \<noteq> ident r"
      by (metis imageI)
    with Cons.IH [OF r d] show ?thesis by simp
  qed
qed

lemma list_store_idents: "map ident (list_store x rs) = map ident rs"
  by (induction rs) (auto simp: list_store_def)

lemma list_store_member:
  assumes "ident x \<in> ident ` set rs"
  shows "x \<in> set (list_store x rs)"
proof -
  from assms obtain y where "y \<in> set rs" "ident y = ident x"
    by auto
  then show ?thesis
    by (auto simp: list_store_def image_iff intro!: bexI [of _ y])
qed

text \<open>
  One call of \<^verbatim>\<open>update\<close> on a Ray with position and facing in the plane, held by the
  list of its Bat: the call returns, the strength is strictly smaller afterwards, the
  Ray is gone from the list exactly when the new strength is 0 or less (and then its
  position is not advanced), and otherwise it stays, advanced by \<^verbatim>\<open>facing * RAY_SPEED\<close>.
\<close>

lemma Ray_update_ok:
  assumes p: "length (ray_pos self) = 2" and f: "length (ray_facing self) = 2"
    and m: "self \<in> set rs" and d: "distinct (map ident rs)"
  shows "\<exists>s1 s rs'.
      Ray_test_collision walls (self\<lparr>ray_strength := ray_strength self - RAY_DECAY\<rparr>) = Inr s1 \<and>
      Ray_update walls self rs = Inr (s, rs') \<and>
      ident s = ident self \<and> length (ray_pos s) = 2 \<and> length (ray_facing s) = 2 \<and>
      distinct (map ident rs') \<and>
      ray_strength s < ray_strength self \<and>
      (ray_strength s \<le> 0 \<longrightarrow> ident self \<notin> ident ` set rs' \<and> s = s1) \<and>
      (0 < ray_strength s \<longrightarrow> s \<in> set rs' \<and>
         s = s1\<lparr>ray_pos := vadd (ray_pos s1) (smul (ray_facing s1) RAY_SPEED)\<rparr>)"
proof -
  let ?s0 = "self\<lparr>ray_strength := ray_strength self - RAY_DECAY\<rparr>"
  have p0: "length (ray_pos ?s0) = 2" and f0: "length (ray_facing ?s0) = 2"
    using p f by simp_all
  from Ray_test_collision_ok [OF p0 f0, of walls] obtain s1 where
    s1: "Ray_test_collision walls ?s0 = Inr s1" "length (ray_pos s1) = 2"
      "length (ray_facing s1) = 2" "ident s1 = ident self" "ray_strength s1 \<le> ray_strength ?s0"
    by auto
  have lt: "ray_strength s1 < ray_strength self"
    using s1(5) by (simp add: RAY_DECAY_def)
  have mem: "ident s1 \<in> ident ` set rs"
    using m s1(4) by (metis imageI)
  show ?thesis
  proof (cases "ray_strength s1 \<le> 0")
    case True
    have rm: "list_remove s1 rs = Inr (filter (\<lambda>y. ident y \<noteq> ident s1) rs)"
      using d mem by (rule list_remove_distinct)
    have u: "Ray_update walls self rs = Inr (s1, filter (\<lambda>y. ident y \<noteq> ident s1) rs)"
      unfolding Ray_update_def s1(1) using True by (simp add: rm)
    have gone: "ident self \<notin> ident ` set (filter (\<lambda>y. ident y \<noteq> ident s1) rs)"
      using s1(4) by auto
    have d': "distinct (map ident (filter (\<lambda>y. ident y \<noteq> ident s1) rs))"
      using d by (rule distinct_map_filter)
    from s1 u gone d' lt True show ?thesis
      by auto
  next
    case False
    let ?s2 = "s1\<lparr>ray_pos := vadd (ray_pos s1) (smul (ray_facing s1) RAY_SPEED)\<rparr>"
    have u: "Ray_update walls self rs = Inr (?s2, list_store ?s2 rs)"
      unfolding Ray_update_def s1(1) using False by (simp add: Let_def)
    from s1(2) obtain x y where xy: "ray_pos s1 = [x, y]" by (rule length2_pair)
    from s1(3) obtain fx fy where fxy: "ray_facing s1 = [fx, fy]" by (rule length2_pair)
    have p2: "length (ray_pos ?s2) = 2"
      by (simp add: xy fxy vec2)
    have in2: "?s2 \<in> set (list_store ?s2 rs)"
      using mem by (intro list_store_member) simp
    have d2: "distinct (map ident (list_store ?s2 rs))"
      using d by (simp only: list_store_idents)
    have "ray_strength ?s2 < ray_strength self" "ident ?s2 = ident self"
      "length (ray_facing ?s2) = 2" "0 < ray_strength ?s2"
      using lt s1 False by simp_all
    with s1(1) u p2 in2 d2 show ?thesis
      by (intro exI [of _ s1] exI [of _ ?s2] exI [of _ "list_store ?s2 rs"]) simp
  qed
qed

lemma Ray_update_free:
  assumes m: "self \<in> set rs" and d: "distinct (map ident rs)"
    and own: "Ray_get_rect self = Inr own" and none: "collidelist own walls = None"
  shows "Ray_update walls self rs =
     (if ray_strength self - RAY_DECAY \<le> 0
      then Inr (self\<lparr>ray_strength := ray_strength self - RAY_DECAY\<rparr>,
                filter (\<lambda>y. ident y \<noteq> ident self) rs)
      else Inr (self\<lparr>ray_strength := ray_strength self - RAY_DECAY,
                     ray_pos := vadd (ray_pos self) (smul (ray_facing self) RAY_SPEED)\<rparr>,
                list_store (self\<lparr>ray_strength := ray_strength self - RAY_DECAY,
                     ray_pos := vadd (ray_pos self) (smul (ray_facing self) RAY_SPEED)\<rparr>) rs))"
proof -
  let ?s0 = "self\<lparr>ray_strength := ray_strength self - RAY_DECAY\<rparr>"
  have own0: "Ray_get_rect ?s0 = Inr own"
    using own by (simp add: Ray_get_rect_def)
  have t: "Ray_test_collision walls ?s0 = Inr ?s0"
    using own0 none by (rule Ray_test_collision_miss)
  have mem: "ident ?s0 \<in> ident ` set rs"
    using m by simp
  have rm: "list_remove ?s0 rs = Inr (filter (\<lambda>y. ident y \<noteq> ident ?s0) rs)"
    using d mem by (rule list_remove_distinct)
  show ?thesis
    unfolding Ray_update_def t using rm by (simp add: Let_def)
qed

lemma py_round_lower:
  assumes "of_int n \<le> a"
  shows "n \<le> py_round a"
proof -
  from assms have "n \<le> \<lfloor>a\<rfloor>"
    by (simp add: le_floor_iff)
  then show ?thesis
    by (simp add: py_round_def Let_def)
qed

section \<open>Removal while the main loop iterates\<close>

lemma list_remove_length:
  "list_remove x rs = Inr rs' \<Longrightarrow> Suc (length rs') = length rs"
proof (induction rs arbitrary: rs')
  case Nil
  then show ?case by simp
next
  case (Cons r rs)
  show ?case
  proof (cases "ident r = ident x")
    case True
    with Cons.prems show ?thesis by simp
  next
    case False
    with Cons.prems obtain rest where rest: "list_remove x rs = Inr rest" "rs' = r # rest"
      by (cases "list_remove x rs") auto
    from Cons.IH [OF rest(1)] rest(2) show ?thesis by simp
  qed
qed

lemma Ray_update_length:
  assumes "Ray_update walls self rs = Inr (s, rs')"
  shows "length rs' \<le> length rs"
proof (cases "Ray_test_collision walls (self\<lparr>ray_strength := ray_strength self - RAY_DECAY\<rparr>)")
  case (Inl e)
  with assms show ?thesis by (simp add: Ray_update_def)
next
  case (Inr s1)
  show ?thesis
  proof (cases "ray_strength s1 \<le> 0")
    case True
    with assms Inr obtain rs1 where "list_remove s1 rs = Inr rs1" "rs' = rs1"
      by (cases "list_remove s1 rs") (auto simp: Ray_update_def)
    with list_remove_length [of s1 rs rs1] show ?thesis by simp
  next
    case False
    with assms Inr have "rs' = list_store (s1\<lparr>ray_pos := vadd (ray_pos s1) (smul (ray_facing s1) RAY_SPEED)\<rparr>) rs"
      by (auto simp: Ray_update_def Let_def)
    then show ?thesis by (simp add: list_store_def)
  qed
qed

text \<open>More fuel than the Rays left to visit changes nothing.\<close>

lemma rays_loop_fuel:
  "length rs \<le> i + fuel \<Longrightarrow> rays_loop walls (Suc fuel) i rs = rays_loop walls fuel i rs"
proof (induction fuel arbitrary: i rs)
  case 0
  then show ?case by simp
next
  case (Suc fuel)
  show ?case
  proof (cases "i < length rs")
    case False
    then show ?thesis by simp
  next
    case True
    show ?thesis
    proof (cases "Ray_update walls (rs ! i) rs")
      case (Inl e)
      with True show ?thesis by simp
    next
      case (Inr p)
      obtain s rs' where p: "p = (s, rs')" by (cases p)
      from Inr p have "length rs' \<le> length rs"
        by (auto dest: Ray_update_length)
      with Suc.prems have "length rs' \<le> Suc i + fuel" by simp
      from Suc.IH [OF this] have "rays_loop walls (Suc fuel) (Suc i) rs' = rays_loop walls fuel (Suc i) rs'" .
      with True Inr p show ?thesis by simp
    qed
  qed
qed

lemma rayGH_free:
  "Ray_get_rect rayG = Inr \<lparr>rect_left = 196, rect_top = 296, rect_w = 8, rect_h = 8\<rparr>"
  "Ray_get_rect rayH = Inr \<lparr>rect_left = 196, rect_top = 296, rect_w = 8, rect_h = 8\<rparr>"
  "collidelist \<lparr>rect_left = 196, rect_top = 296, rect_w = 8, rect_h = 8\<rparr> [wall0] = None"
  by (simp_all add: Ray_get_rect_def rayG_def rayH_def vec2 colliderect_def wall0_def)

text \<open>
  A pass of the main loop need not call \<^verbatim>\<open>update\<close> on every Ray: when \<^verbatim>\<open>update\<close>
  removes a Ray from the list, the loop passes over the Ray that follows it. Here both
  Rays have strength 1; the first pass removes \<open>rayG\<close> and leaves \<open>rayH\<close> untouched, and
  \<open>rayH\<close> goes in the second pass.
\<close>

lemma update_rays_skips:
  "update_rays [wall0] [rayG, rayH] = Inr [rayH] \<and> update_rays [wall0] [rayH] = Inr []"
proof -
  have d: "distinct (map ident [rayG, rayH])" "distinct (map ident [rayH])"
    by (simp_all add: rayG_def rayH_def)
  have m: "rayG \<in> set [rayG, rayH]" "rayH \<in> set [rayH]"
    by simp_all
  have s: "ray_strength rayG - RAY_DECAY = 0" "ray_strength rayH - RAY_DECAY = 0"
    "ident rayH \<noteq> ident rayG"
    by (simp_all add: rayG_def rayH_def RAY_DECAY_def)
  have g: "Ray_update [wall0] rayG [rayG, rayH] = Inr (rayG\<lparr>ray_strength := 0\<rparr>, [rayH])"
    unfolding Ray_update_free [OF m(1) d(1) rayGH_free(1) rayGH_free(3)] s
    using s(3) by simp
  have h: "Ray_update [wall0] rayH [rayH] = Inr (rayH\<lparr>ray_strength := 0\<rparr>, [])"
    unfolding Ray_update_free [OF m(2) d(2) rayGH_free(2) rayGH_free(3)] s
    by simp
  show ?thesis
    by (simp add: update_rays_def g h)
qed

text \<open>A Ray to the right of \<open>wall0\<close> does not collide with it.\<close>

lemma far_free:
  assumes "ray_pos r = [x, y]" "150 \<le> x" "ray_radius r = 4"
  shows "\<exists>own. Ray_get_rect r = Inr own \<and> collidelist own [wall0] = None"
proof -
  have "of_int 146 \<le> x - 4"
    using assms(2) by simp
  then have lo: "146 \<le> py_round (x - 4)"
    by (rule py_round_lower)
  have g: "Ray_get_rect r = Inr \<lparr>rect_left = py_round (x - 4), rect_top = py_round (y - 4),
             rect_w = 8, rect_h = 8\<rparr>"
    by (simp add: Ray_get_rect_def assms(1,3) vec2)
  have "\<not> colliderect \<lparr>rect_left = py_round (x - 4), rect_top = py_round (y - 4),
             rect_w = 8, rect_h = 8\<rparr> (wall_rect wall0)"
    using lo by (simp add: colliderect_def wall0_def)
  then have "collidelist \<lparr>rect_left = py_round (x - 4), rect_top = py_round (y - 4),
             rect_w = 8, rect_h = 8\<rparr> [wall0] = None"
    by simp
  with g show ?thesis by blast
qed

text \<open>One pass of the loop over two Rays in free flight, and over one.\<close>

lemma update_rays_pair_stay:
  assumes d: "ident a \<noteq> ident b"
    and fa: "Ray_get_rect a = Inr oa" "collidelist oa walls = None"
    and fb: "Ray_get_rect b = Inr ob" "collidelist ob walls = None"
    and sa: "0 < ray_strength a - RAY_DECAY" and sb: "0 < ray_strength b - RAY_DECAY"
  shows "update_rays walls [a, b] =
     Inr [a\<lparr>ray_strength := ray_strength a - RAY_DECAY,
             ray_pos := vadd (ray_pos a) (smul (ray_facing a) RAY_SPEED)\<rparr>,
          b\<lparr>ray_strength := ray_strength b - RAY_DECAY,
             ray_pos := vadd (ray_pos b) (smul (ray_facing b) RAY_SPEED)\<rparr>]"
proof -
  let ?a = "a\<lparr>ray_strength := ray_strength a - RAY_DECAY,
             ray_pos := vadd (ray_pos a) (smul (ray_facing a) RAY_SPEED)\<rparr>"
  let ?b = "b\<lparr>ray_strength := ray_strength b - RAY_DECAY,
             ray_pos := vadd (ray_pos b) (smul (ray_facing b) RAY_SPEED)\<rparr>"
  have d1: "distinct (map ident [a, b])" and m1: "a \<in> set [a, b]"
    using d by simp_all
  have u1: "Ray_update walls a [a, b] = Inr (?a, [?a, b])"
    unfolding Ray_update_free [OF m1 d1 fa] using sa d by (simp add: list_store_def)
  have d2: "distinct (map ident [?a, b])" and m2: "b \<in> set [?a, b]"
    using d by simp_all
  have u2: "Ray_update walls b [?a, b] = Inr (?b, [?a, ?b])"
    unfolding Ray_update_free [OF m2 d2 fb] using sb d by (simp add: list_store_def)
  have "rays_loop walls (Suc (Suc 0)) 0 [a, b] = Inr [?a, ?b]"
    by (simp add: u1 u2)
  then show ?thesis
    by (simp add: update_rays_def)
qed

lemma update_rays_pair_first_leaves:
  assumes d: "ident a \<noteq> ident b"
    and fa: "Ray_get_rect a = Inr oa" "collidelist oa walls = None"
    and sa: "ray_strength a - RAY_DECAY \<le> 0"
  shows "update_rays walls [a, b] = Inr [b]"
proof -
  have d1: "distinct (map ident [a, b])" and m1: "a \<in> set [a, b]"
    using d by simp_all
  have u1: "Ray_update walls a [a, b] = Inr (a\<lparr>ray_strength := ray_strength a - RAY_DECAY\<rparr>, [b])"
    unfolding Ray_update_free [OF m1 d1 fa] using sa d by auto
  have "rays_loop walls (Suc (Suc 0)) 0 [a, b] = Inr [b]"
    by (simp add: u1)
  then show ?thesis
    by (simp add: update_rays_def)
qed

lemma update_rays_single_leaves:
  assumes fb: "Ray_get_rect b = Inr ob" "collidelist ob walls = None"
    and sb: "ray_strength b - RAY_DECAY \<le> 0"
  shows "update_rays walls [b] = Inr []"
proof -
  have d1: "distinct (map ident [b])" and m1: "b \<in> set [b]"
    by simp_all
  have u1: "Ray_update walls b [b] = Inr (b\<lparr>ray_strength := ray_strength b - RAY_DECAY\<rparr>, [])"
    unfolding Ray_update_free [OF m1 d1 fb] using sb by auto
  have "rays_loop walls (Suc 0) 0 [b] = Inr []"
    by (simp add: u1)
  then show ?thesis
    by (simp add: update_rays_def)
qed

lemma rays_frames_pair:
  "k \<le> 199 \<Longrightarrow>
   rays_frames [wall0] k [rayE, rayF] =
     Inr [rayE\<lparr>ray_strength := 200 - real k, ray_pos := [200, 300 + 8 * real k]\<rparr>,
          rayF\<lparr>ray_strength := 200 - real k, ray_pos := [200 + 8 * real k, 300]\<rparr>]"
proof (induction k)
  case 0
  show ?case by (simp add: rayE_def rayF_def)
next
  case (Suc k)
  let ?e = "rayE\<lparr>ray_strength := 200 - real k, ray_pos := [200, 300 + 8 * real k]\<rparr>"
  let ?f = "rayF\<lparr>ray_strength := 200 - real k, ray_pos := [200 + 8 * real k, 300]\<rparr>"
  from Suc.prems have k: "k \<le> 199" and k': "real k \<le> 198"
    by simp_all
  have ih: "rays_frames [wall0] k [rayE, rayF] = Inr [?e, ?f]"
    using k by (rule Suc.IH)
  have d: "ident ?e \<noteq> ident ?f"
    by (simp add: rayE_def rayF_def)
  obtain oe where oe: "Ray_get_rect ?e = Inr oe" "collidelist oe [wall0] = None"
    using far_free [of ?e 200 "300 + 8 * real k"] by (auto simp: rayE_def)
  obtain of' where "of": "Ray_get_rect ?f = Inr of'" "collidelist of' [wall0] = None"
    using far_free [of ?f "200 + 8 * real k" 300] by (auto simp: rayF_def)
  have se: "0 < ray_strength ?e - RAY_DECAY" and sf: "0 < ray_strength ?f - RAY_DECAY"
    using k' by (simp_all add: RAY_DECAY_def)
  have "rays_frames [wall0] (Suc k) [rayE, rayF] = update_rays [wall0] [?e, ?f]"
    by (simp add: ih)
  also note update_rays_pair_stay [OF d oe "of" se sf]
  finally show ?case
    by (simp add: rayE_def rayF_def vec2 RAY_DECAY_def RAY_SPEED_def algebra_simps)
qed

text \<open>
  C4 (the code does not do what the claim says). \<open>rayE\<close> and \<open>rayF\<close> are two Rays of
  strength 200, the decay is 1 a tick, and neither ever meets a wall. After 199 passes
  of the main loop both have strength 1. Pass 200 brings \<open>rayE\<close> to 0 and removes it;
  the loop then passes over \<open>rayF\<close>, which stays in the list with strength 1, and only
  pass 201 removes it. So a Ray of strength 200 in free flight can outlive 200 ticks of
  the program, and a tick can leave the strength of a Ray as it was.
\<close>

theorem rays_frames_skip_delays_removal:
  "ray_strength rayE = RAY_STRENGTH \<and> ray_strength rayF = RAY_STRENGTH \<and>
   rays_frames [wall0] 199 [rayE, rayF] =
     Inr [rayE\<lparr>ray_strength := 1, ray_pos := [200, 1892]\<rparr>,
          rayF\<lparr>ray_strength := 1, ray_pos := [1792, 300]\<rparr>] \<and>
   rays_frames [wall0] 200 [rayE, rayF] =
     Inr [rayF\<lparr>ray_strength := 1, ray_pos := [1792, 300]\<rparr>] \<and>
   rays_frames [wall0] 201 [rayE, rayF] = Inr []"
proof -
  let ?e = "rayE\<lparr>ray_strength := 1, ray_pos := [200, 1892]\<rparr>"
  let ?f = "rayF\<lparr>ray_strength := 1, ray_pos := [1792, 300]\<rparr>"
  have s: "ray_strength rayE = RAY_STRENGTH" "ray_strength rayF = RAY_STRENGTH"
    by (simp_all add: rayE_def rayF_def RAY_STRENGTH_def)
  have n: "(200 :: nat) = Suc 199" "(201 :: nat) = Suc 200"
    by simp_all
  have f199: "rays_frames [wall0] 199 [rayE, rayF] = Inr [?e, ?f]"
    using rays_frames_pair [of 199] by simp
  have d: "ident ?e \<noteq> ident ?f"
    by (simp add: rayE_def rayF_def)
  obtain oe where oe: "Ray_get_rect ?e = Inr oe" "collidelist oe [wall0] = None"
    using far_free [of ?e 200 1892] by (auto simp: rayE_def)
  obtain of' where "of": "Ray_get_rect ?f = Inr of'" "collidelist of' [wall0] = None"
    using far_free [of ?f 1792 300] by (auto simp: rayF_def)
  have se: "ray_strength ?e - RAY_DECAY \<le> 0" and sf: "ray_strength ?f - RAY_DECAY \<le> 0"
    by (simp_all add: RAY_DECAY_def)
  have "rays_frames [wall0] 200 [rayE, rayF] = update_rays [wall0] [?e, ?f]"
    unfolding n(1) rays_frames.simps f199 by simp
  then have f200: "rays_frames [wall0] 200 [rayE, rayF] = Inr [?f]"
    by (simp only: update_rays_pair_first_leaves [OF d oe se])
  have "rays_frames [wall0] 201 [rayE, rayF] = update_rays [wall0] [?f]"
    unfolding n(2) rays_frames.simps f200 by simp
  then have f201: "rays_frames [wall0] 201 [rayE, rayF] = Inr []"
    by (simp only: update_rays_single_leaves [OF "of" sf])
  from s f199 f200 f201 show ?thesis
    by simp
qed

end
